theory Spec2Isabelle
  imports
    Complex_Main
    "HOL-Library.Word"
    "HOL-Library.AList"
    "HOL-Library.Char_ord"
    "HOL-Library.List_Lexorder"
    "HOL-Library.Sublist"
begin

section \<open>SQL Server activity sampler (sqlserver/activity.py)\<close>

text \<open>
  A shallow embedding of \<^verbatim>\<open>datadog_checks/sqlserver/activity.py\<close>: the job
  \<^verbatim>\<open>SqlserverActivity\<close> that snapshots the running transactions of a SQL Server
  instance, normalises the rows and submits one activity event per poll.

  Rows are Python dictionaries from column names to driver values. A dictionary is an
  association list in insertion order (keys distinct in every dictionary Python builds);
  \<open>AList.update\<close> is Python's item assignment: it overwrites in place, or appends a new
  key at the end. Exceptions are values of type \<open>py_exception\<close>, and a function that can
  raise returns \<open>py_exception + 'a\<close>. The collaborators that are not part of the module
  (the obfuscator and signature function of the agent, Python's \<^verbatim>\<open>str\<close>, the database
  cursor, the event channel) are parameters.
\<close>

subsection \<open>Values, rows and exceptions\<close>

text \<open>
  The values a driver hands over in a row: \<^verbatim>\<open>None\<close>, \<^verbatim>\<open>bool\<close>, \<^verbatim>\<open>int\<close>, \<^verbatim>\<open>str\<close>,
  \<^verbatim>\<open>bytes\<close> and \<^verbatim>\<open>datetime\<close> (microseconds since the epoch). Floating-point columns
  are not represented; the module takes no decision on them.
\<close>

datatype val =
    VNone
  | VBool bool
  | VInt int
  | VStr string
  | VBytes "8 word list"
  | VTime int

type_synonym row = "(string \<times> val) list"

text \<open>
  Only subclasses of \<^verbatim>\<open>Exception\<close> are modelled (the ones \<^verbatim>\<open>except Exception\<close> catches):
  a missing dictionary key, an operation on a value of the wrong type, and an error raised
  by a collaborator.
\<close>

datatype py_exception =
    KeyError string
  | TypeError
  | ExternalError string

text \<open>\<^verbatim>\<open>row[key]\<close>\<close>

definition getitem :: "row \<Rightarrow> string \<Rightarrow> py_exception + val" where
  "getitem row key = (case map_of row key of None \<Rightarrow> Inl (KeyError key) | Some v \<Rightarrow> Inr v)"

text \<open>Python's truth value of an object, as \<^verbatim>\<open>if x:\<close> tests it.\<close>

fun truthy :: "val \<Rightarrow> bool" where
  "truthy VNone = False"
| "truthy (VBool b) = b"
| "truthy (VInt i) = (i \<noteq> 0)"
| "truthy (VStr s) = (s \<noteq> [])"
| "truthy (VBytes bs) = (bs \<noteq> [])"
| "truthy (VTime t) = True"

fun py_int :: "val \<Rightarrow> int option" where
  "py_int (VBool b) = Some (if b then 1 else 0)"
| "py_int (VInt i) = Some i"
| "py_int v = None"

text \<open>
  \<^verbatim>\<open>x > y\<close>: defined between two datetimes, two strings, two byte strings and two
  integers (a \<^verbatim>\<open>bool\<close> is an integer); any other pair raises \<^verbatim>\<open>TypeError\<close>.
\<close>

fun py_gt :: "val \<Rightarrow> val \<Rightarrow> py_exception + bool" where
  "py_gt (VTime a) (VTime b) = Inr (b < a)"
| "py_gt (VStr a) (VStr b) = Inr (b < a)"
| "py_gt (VBytes a) (VBytes b) = Inr (b < a)"
| "py_gt x y =
     (case (py_int x, py_int y) of
        (Some a, Some b) \<Rightarrow> Inr (b < a)
      | _ \<Rightarrow> Inl TypeError)"

subsection \<open>Module constants\<close>

definition DEFAULT_COLLECTION_INTERVAL :: real where
  "DEFAULT_COLLECTION_INTERVAL = 10"

definition MAX_PAYLOAD_BYTES :: real where
  "MAX_PAYLOAD_BYTES = 19000000"

definition dm_exec_requests_exclude_keys :: "string list" where
  "dm_exec_requests_exclude_keys =
     [''sql_handle'', ''plan_handle'', ''statement_sql_handle'', ''task_address'',
      ''page_resource'', ''scheduler_id'', ''context_info'']"

definition obfuscation_failed_text :: string where
  "obfuscation_failed_text = ''ERROR: failed to obfuscate''"

subsection \<open>Hex encoding of hashes\<close>

definition hex_digit :: "nat \<Rightarrow> char" where
  "hex_digit n = ''0123456789abcdef'' ! n"

text \<open>\<^verbatim>\<open>binascii.hexlify\<close> on a byte string: two lowercase hex digits per byte.\<close>

definition hexlify :: "8 word list \<Rightarrow> string" where
  "hexlify bs = concat (map (\<lambda>b. [hex_digit (unat b div 16), hex_digit (unat b mod 16)]) bs)"

text \<open>
  Modelled from the spec: \<^verbatim>\<open>to_native_string\<close> of \<^verbatim>\<open>datadog_checks.base.utils.common\<close>
  is not among the sources. The spec has the binary hash fields re-encoded "as lowercase
  hexadecimal strings": the ASCII bytes that \<^verbatim>\<open>hexlify\<close> returns become the string of the
  same characters.
\<close>

definition to_native_string :: "string \<Rightarrow> string" where
  "to_native_string s = s"

text \<open>\<^verbatim>\<open>_hash_to_hex\<close>; \<^verbatim>\<open>hexlify\<close> raises \<^verbatim>\<open>TypeError\<close> on anything but bytes.\<close>

definition hash_to_hex :: "val \<Rightarrow> py_exception + val" where
  "hash_to_hex hash =
     (case hash of
        VBytes bs \<Rightarrow> Inr (VStr (to_native_string (hexlify bs)))
      | _ \<Rightarrow> Inl TypeError)"

subsection \<open>Collaborators of the normalizer\<close>

text \<open>
  \<^verbatim>\<open>datadog_agent.obfuscate_sql\<close> and \<^verbatim>\<open>compute_sql_signature\<close> either return or raise;
  \<^verbatim>\<open>str\<close> is Python's builtin on a dictionary.
\<close>

record collaborators =
  obfuscate_sql :: "val \<Rightarrow> py_exception + string"
  compute_sql_signature :: "string \<Rightarrow> py_exception + val"
  py_str :: "row \<Rightarrow> string"

subsection \<open>The row operations\<close>

text \<open>
  \<^verbatim>\<open>if key in row: row[key] = _hash_to_hex(row[key])\<close>
\<close>

definition hex_field :: "string \<Rightarrow> row \<Rightarrow> py_exception + row" where
  "hex_field key row =
     (case map_of row key of
        None \<Rightarrow> Inr row
      | Some h \<Rightarrow>
          (case hash_to_hex h of
             Inl e \<Rightarrow> Inl e
           | Inr v \<Rightarrow> Inr (AList.update key v row)))"

text \<open>\<^verbatim>\<open>_sanitize_row\<close>\<close>

definition sanitize_row :: "row \<Rightarrow> string \<Rightarrow> py_exception + row" where
  "sanitize_row row obfuscated_statement =
     (let row1 = filter (\<lambda>(key, v). key \<notin> set dm_exec_requests_exclude_keys \<and> v \<noteq> VNone) row;
          row2 = AList.update ''text'' (VStr obfuscated_statement) row1
      in case hex_field ''query_hash'' row2 of
           Inl e \<Rightarrow> Inl e
         | Inr row3 \<Rightarrow> hex_field ''query_plan_hash'' row3)"

text \<open>\<^verbatim>\<open>_get_estimated_row_size_bytes\<close>\<close>

definition get_estimated_row_size_bytes :: "collaborators \<Rightarrow> row \<Rightarrow> nat" where
  "get_estimated_row_size_bytes c row = length (py_str c row)"

text \<open>\<^verbatim>\<open>_set_last_activity\<close>\<close>

definition set_last_activity :: "val \<Rightarrow> row \<Rightarrow> py_exception + val" where
  "set_last_activity current_start row =
     (case getitem row ''start_time'' of
        Inl e \<Rightarrow> Inl e
      | Inr start_time \<Rightarrow>
          if start_time \<noteq> VNone then
            (if current_start = VNone then Inr start_time
             else
               (case py_gt start_time current_start of
                  Inl e \<Rightarrow> Inl e
                | Inr newer \<Rightarrow> Inr (if newer then start_time else current_start)))
          else Inr current_start)"

text \<open>
  The \<^verbatim>\<open>try\<close> block of the normalizer's loop: it returns the row (with
  \<^verbatim>\<open>query_signature\<close> assigned when both calls returned) and the value of
  \<^verbatim>\<open>obfuscated_statement\<close> after the block. Whatever is raised inside the block,
  the missing \<^verbatim>\<open>text\<close> key included, is caught.
\<close>

definition obfuscate_row :: "collaborators \<Rightarrow> row \<Rightarrow> row \<times> string" where
  "obfuscate_row c row =
     (case getitem row ''text'' of
        Inl e \<Rightarrow> (row, obfuscation_failed_text)
      | Inr t \<Rightarrow>
          (case obfuscate_sql c t of
             Inl e \<Rightarrow> (row, obfuscation_failed_text)
           | Inr obfuscated_statement \<Rightarrow>
               (case compute_sql_signature c obfuscated_statement of
                  Inl e \<Rightarrow> (row, obfuscation_failed_text)
                | Inr signature \<Rightarrow>
                    (AList.update ''query_signature'' signature row, obfuscated_statement))))"

text \<open>
  The test that opens the loop body,
  \<^verbatim>\<open>self._activity_last_query_start is None and row['status'] == "sleeping"\<close>:
  \<^verbatim>\<open>and\<close> reads \<^verbatim>\<open>row['status']\<close> only when the watermark is \<^verbatim>\<open>None\<close>.
\<close>

definition skip_idle :: "val \<Rightarrow> row \<Rightarrow> py_exception + bool" where
  "skip_idle last_query_start row =
     (if last_query_start = VNone then
        (case getitem row ''status'' of
           Inl e \<Rightarrow> Inl e
         | Inr status \<Rightarrow> Inr (status = VStr ''sleeping''))
      else Inr False)"

subsection \<open>The normalizer\<close>

text \<open>
  The state of the \<^verbatim>\<open>for\<close> loop of \<^verbatim>\<open>_normalize_queries_and_filter_rows\<close>: the
  watermark \<^verbatim>\<open>self._activity_last_query_start\<close>, \<^verbatim>\<open>estimated_size\<close> and
  \<^verbatim>\<open>normalized_rows\<close>. One pass through the loop body goes on to the next row
  (after \<^verbatim>\<open>continue\<close> or \<^verbatim>\<open>append\<close>), returns, or raises; the watermark is an
  attribute of the job, so an assignment made before a return or an exception stays.
\<close>

type_synonym loop_state = "val \<times> nat \<times> row list"

datatype loop_step =
    Continue loop_state
  | Return "row list" val
  | Raise py_exception val

definition loop_body :: "collaborators \<Rightarrow> real \<Rightarrow> loop_state \<Rightarrow> row \<Rightarrow> loop_step" where
  "loop_body c max_bytes_limit s row =
     (case s of
        (last_query_start, estimated_size, normalized_rows) \<Rightarrow>
          (case skip_idle last_query_start row of
             Inl e \<Rightarrow> Raise e last_query_start
           | Inr True \<Rightarrow> Continue (last_query_start, estimated_size, normalized_rows)
           | Inr False \<Rightarrow>
               (case obfuscate_row c row of
                  (row1, obfuscated_statement) \<Rightarrow>
                    (case set_last_activity last_query_start row1 of
                       Inl e \<Rightarrow> Raise e last_query_start
                     | Inr last_query_start' \<Rightarrow>
                         (case sanitize_row row1 obfuscated_statement of
                            Inl e \<Rightarrow> Raise e last_query_start'
                          | Inr row2 \<Rightarrow>
                              (let estimated_size' =
                                     estimated_size + get_estimated_row_size_bytes c row2
                               in if real estimated_size' > max_bytes_limit
                                  then Return normalized_rows last_query_start'
                                  else Continue (last_query_start', estimated_size',
                                                 normalized_rows @ [row2])))))))"

fun norm_loop ::
  "collaborators \<Rightarrow> real \<Rightarrow> loop_state \<Rightarrow> row list \<Rightarrow> (py_exception + row list) \<times> val"
where
  "norm_loop c max_bytes_limit (last_query_start, estimated_size, normalized_rows) [] =
     (Inr normalized_rows, last_query_start)"
| "norm_loop c max_bytes_limit s (row # rows) =
     (case loop_body c max_bytes_limit s row of
        Continue s' \<Rightarrow> norm_loop c max_bytes_limit s' rows
      | Return normalized_rows last_query_start \<Rightarrow> (Inr normalized_rows, last_query_start)
      | Raise e last_query_start \<Rightarrow> (Inl e, last_query_start))"

text \<open>
  \<^verbatim>\<open>_normalize_queries_and_filter_rows\<close>: what it returns or raises, and the watermark it
  leaves in the job.
\<close>

definition normalize_queries_and_filter_rows ::
  "collaborators \<Rightarrow> val \<Rightarrow> row list \<Rightarrow> real \<Rightarrow> (py_exception + row list) \<times> val"
where
  "normalize_queries_and_filter_rows c last_query_start rows max_bytes_limit =
     norm_loop c max_bytes_limit (last_query_start, 0, []) rows"

subsection \<open>The job and its fetches\<close>

text \<open>
  The text that \<^verbatim>\<open>_get_extra_activity_query_args\<close> formats into the activity query,
  as a syntax tree: \<open>SqlNot (SqlAnd R_session_id_is_NULL (DateDiffSecondLess t n))\<close> is
  \<^verbatim>\<open>NOT (r.session_id is NULL AND DATEDIFF(second, at.transaction_begin_time, 't') < n)\<close>.
\<close>

datatype sql_cond =
    R_session_id_is_NULL
  | DateDiffSecondLess val real
  | SqlAnd sql_cond sql_cond
  | SqlNot sql_cond

datatype sql_order = ORDER_BY_transaction_begin_time_ASC

record extra_query_args =
  where_clause :: "sql_cond option"
  order_by :: sql_order

datatype query = CONNECTIONS_QUERY | ACTIVITY_QUERY extra_query_args

record event =
  host :: string
  ddagentversion :: string
  ddsource :: string
  dbm_type :: string
  event_collection_interval :: real
  ddtags :: "string list"
  timestamp :: real
  sqlserver_activity :: "row list"
  sqlserver_connections :: "row list"

text \<open>
  The job instance. Besides the attributes of \<^verbatim>\<open>SqlserverActivity\<close> it records what a
  poll does to the outside: \<open>error_count\<close> counts the increments of
  \<^verbatim>\<open>dd.sqlserver.activity.error\<close>, \<open>timing_count\<close> the samples of the timing histogram,
  and \<open>submitted\<close> lists the events handed to \<^verbatim>\<open>database_monitoring_query_activity\<close>.
\<close>

record job =
  activity_last_query_start :: val
  collection_interval :: real
  db_hostname :: string
  check_tags :: "string list"
  error_count :: nat
  timing_count :: nat
  submitted :: "event list"

text \<open>
  What the surroundings do during one poll: whether opening the managed connection or
  cursor raises, what the cursor returns for a query (column names and tuples) or raises,
  whether serialising and submitting an event raises, the agent version and the clock.
\<close>

record world =
  open_connection :: "py_exception option"
  cursor_execute :: "query \<Rightarrow> py_exception + string list \<times> val list list"
  submit_event :: "event \<Rightarrow> py_exception option"
  agent_version :: string
  clock :: real

text \<open>\<^verbatim>\<open>__init__\<close>: the configured interval, the default when absent or not positive.\<close>

definition init_job :: "real option \<Rightarrow> string \<Rightarrow> string list \<Rightarrow> job" where
  "init_job configured hostname tags =
     (let collection_interval = (case configured of None \<Rightarrow> DEFAULT_COLLECTION_INTERVAL | Some x \<Rightarrow> x);
          collection_interval = (if collection_interval \<le> 0 then DEFAULT_COLLECTION_INTERVAL
                                 else collection_interval)
      in \<lparr>activity_last_query_start = VNone, collection_interval = collection_interval,
          db_hostname = hostname, check_tags = tags,
          error_count = 0, timing_count = 0, submitted = []\<rparr>)"

text \<open>\<^verbatim>\<open>_get_extra_activity_query_args\<close>\<close>

definition get_extra_activity_query_args :: "job \<Rightarrow> extra_query_args" where
  "get_extra_activity_query_args self =
     \<lparr>where_clause =
        (if truthy (activity_last_query_start self)
         then Some (SqlNot (SqlAnd R_session_id_is_NULL
                      (DateDiffSecondLess (activity_last_query_start self) (collection_interval self))))
         else None),
      order_by = ORDER_BY_transaction_begin_time_ASC\<rparr>"

text \<open>\<^verbatim>\<open>dict(zip(columns, row))\<close>: a repeated column keeps its first place and its last value.\<close>

definition py_dict :: "(string \<times> val) list \<Rightarrow> row" where
  "py_dict kvs = foldl (\<lambda>d (k, v). AList.update k v d) [] kvs"

definition fetch_rows :: "world \<Rightarrow> query \<Rightarrow> py_exception + row list" where
  "fetch_rows w q =
     (case cursor_execute w q of
        Inl e \<Rightarrow> Inl e
      | Inr (columns, tuples) \<Rightarrow> Inr (map (\<lambda>t. py_dict (zip columns t)) tuples))"

text \<open>\<^verbatim>\<open>_get_active_connections\<close> and \<^verbatim>\<open>_get_activity\<close>\<close>

definition get_active_connections :: "world \<Rightarrow> py_exception + row list" where
  "get_active_connections w = fetch_rows w CONNECTIONS_QUERY"

definition get_activity :: "world \<Rightarrow> job \<Rightarrow> py_exception + row list" where
  "get_activity w self = fetch_rows w (ACTIVITY_QUERY (get_extra_activity_query_args self))"

text \<open>\<^verbatim>\<open>_create_activity_event\<close>\<close>

definition create_activity_event :: "world \<Rightarrow> job \<Rightarrow> row list \<Rightarrow> row list \<Rightarrow> event" where
  "create_activity_event w self active_sessions active_connections =
     \<lparr>host = db_hostname self,
      ddagentversion = agent_version w,
      ddsource = ''sqlserver'',
      dbm_type = ''activity'',
      event_collection_interval = collection_interval self,
      ddtags = check_tags self,
      timestamp = clock w * 1000,
      sqlserver_activity = active_sessions,
      sqlserver_connections = active_connections\<rparr>"

subsection \<open>One poll\<close>

text \<open>What \<^verbatim>\<open>collect_activity\<close> returns: \<^verbatim>\<open>[]\<close> from the handler, \<^verbatim>\<open>None\<close> at its end.\<close>

datatype poll_result = ReturnsEmptyList | ReturnsNone

text \<open>The \<^verbatim>\<open>except Exception\<close> handler of \<^verbatim>\<open>collect_activity\<close>.\<close>

definition on_error :: "job \<Rightarrow> poll_result \<times> job" where
  "on_error self = (ReturnsEmptyList, self\<lparr>error_count := error_count self + 1\<rparr>)"

text \<open>
  \<^verbatim>\<open>collect_activity\<close>. The normalizer assigns the watermark while it runs, so the job
  that reaches the handler after the normalizer has run carries the watermark the
  normalizer left.
\<close>

definition collect_activity :: "collaborators \<Rightarrow> world \<Rightarrow> job \<Rightarrow> poll_result \<times> job" where
  "collect_activity c w self =
     (case open_connection w of
        Some e \<Rightarrow> on_error self
      | None \<Rightarrow>
          (case get_active_connections w of
             Inl e \<Rightarrow> on_error self
           | Inr connections \<Rightarrow>
               (case get_activity w self of
                  Inl e \<Rightarrow> on_error self
                | Inr rows \<Rightarrow>
                    (case normalize_queries_and_filter_rows c (activity_last_query_start self)
                            rows MAX_PAYLOAD_BYTES of
                       (result, last_query_start') \<Rightarrow>
                         (let self1 = self\<lparr>activity_last_query_start := last_query_start'\<rparr>
                          in case result of
                               Inl e \<Rightarrow> on_error self1
                             | Inr normalized_rows \<Rightarrow>
                                 (let event = create_activity_event w self1 normalized_rows connections
                                  in case submit_event w event of
                                       Some e \<Rightarrow> on_error self1
                                     | None \<Rightarrow>
                                         (ReturnsNone,
                                          self1\<lparr>submitted := submitted self1 @ [event],
                                                timing_count := timing_count self1 + 1\<rparr>)))))))"

text \<open>A sequence of polls, each against its own surroundings.\<close>

fun run_polls :: "collaborators \<Rightarrow> world list \<Rightarrow> job \<Rightarrow> job" where
  "run_polls c [] self = self"
| "run_polls c (w # ws) self = run_polls c ws (snd (collect_activity c w self))"

subsection \<open>What the exclusion predicate selects\<close>

text \<open>
  The meaning SQL Server gives the \<^verbatim>\<open>WHERE\<close> clause on one row of the join, of which
  the clause reads \<^verbatim>\<open>r.session_id\<close> (\<^verbatim>\<open>NULL\<close> when the session has no request) and
  \<^verbatim>\<open>at.transaction_begin_time\<close>. \<^verbatim>\<open>DATEDIFF(second, a, b)\<close> counts the second
  boundaries from \<open>a\<close> to \<open>b\<close>. A literal that is no date fails the query: the
  condition has no value then.
\<close>

record candidate =
  r_session_id :: "int option"
  transaction_begin_time :: int

definition datediff_second :: "int \<Rightarrow> int \<Rightarrow> int" where
  "datediff_second startdate enddate = enddate div 1000000 - startdate div 1000000"

fun eval_cond :: "candidate \<Rightarrow> sql_cond \<Rightarrow> bool option" where
  "eval_cond x R_session_id_is_NULL = Some (r_session_id x = None)"
| "eval_cond x (DateDiffSecondLess lit n) =
     (case lit of
        VTime t \<Rightarrow> Some (real_of_int (datediff_second (transaction_begin_time x) t) < n)
      | _ \<Rightarrow> None)"
| "eval_cond x (SqlAnd a b) =
     (case eval_cond x a of
        None \<Rightarrow> None
      | Some p \<Rightarrow> (case eval_cond x b of None \<Rightarrow> None | Some q \<Rightarrow> Some (p \<and> q)))"
| "eval_cond x (SqlNot a) = map_option Not (eval_cond x a)"

text \<open>A row of the join is fetched when there is no clause or the clause is true of it.\<close>

definition fetched :: "extra_query_args \<Rightarrow> candidate \<Rightarrow> bool" where
  "fetched args x =
     (case where_clause args of
        None \<Rightarrow> True
      | Some cond \<Rightarrow> eval_cond x cond = Some True)"

subsection \<open>Sample inputs\<close>

text \<open>
  Collaborators for the examples: an obfuscator that replaces digits by \<open>?\<close> and raises
  on anything but a string, a signature function that returns \<^verbatim>\<open>None\<close> for the empty
  statement, and a \<^verbatim>\<open>str\<close> under which every row is 40 characters long.
\<close>

definition sample_collaborators :: collaborators where
  "sample_collaborators =
     \<lparr>obfuscate_sql =
        (\<lambda>v. case v of
               VStr s \<Rightarrow> Inr (map (\<lambda>ch. if ch \<in> set ''0123456789'' then CHR ''?'' else ch) s)
             | _ \<Rightarrow> Inl (ExternalError ''obfuscate_sql'')),
      compute_sql_signature = (\<lambda>s. if s = [] then Inr VNone else Inr (VStr ''a1b2'')),
      py_str = (\<lambda>r. replicate 40 (CHR ''x''))\<rparr>"

definition sample_job :: job where
  "sample_job = init_job None ''db-host'' [''env:test'']"

definition sample_connections :: "string list \<times> val list list" where
  "sample_connections = ([''user_name'', ''connections''], [[VStr ''sa'', VInt 2]])"

definition world_activity_fetch_fails :: world where
  "world_activity_fetch_fails =
     \<lparr>open_connection = None,
      cursor_execute =
        (\<lambda>q. case q of
               CONNECTIONS_QUERY \<Rightarrow> Inr sample_connections
             | ACTIVITY_QUERY args \<Rightarrow> Inl (ExternalError ''query timeout'')),
      submit_event = (\<lambda>ev. None),
      agent_version = ''7.0'',
      clock = 100\<rparr>"

definition world_submit_fails :: world where
  "world_submit_fails =
     \<lparr>open_connection = None,
      cursor_execute =
        (\<lambda>q. case q of
               CONNECTIONS_QUERY \<Rightarrow> Inr sample_connections
             | ACTIVITY_QUERY args \<Rightarrow>
                 Inr ([''status'', ''text'', ''start_time''],
                      [[VStr ''running'', VStr ''select 1'', VTime 7000000]])),
      submit_event = (\<lambda>ev. Some (ExternalError ''not serializable'')),
      agent_version = ''7.0'',
      clock = 100\<rparr>"

text \<open>A job whose watermark is set to second 1000, with the default interval of 10 seconds.\<close>

definition job_with_watermark :: job where
  "job_with_watermark = sample_job\<lparr>activity_last_query_start := VTime 1000000000\<rparr>"

text \<open>Two idle transactions (no request): one begun 5 seconds, one 100 seconds before it.\<close>

definition idle_recent :: candidate where
  "idle_recent = \<lparr>r_session_id = None, transaction_begin_time = 995000000\<rparr>"

definition idle_old :: candidate where
  "idle_old = \<lparr>r_session_id = None, transaction_begin_time = 900000000\<rparr>"

text \<open>The rows of a first poll: a running statement, then a sleeping session.\<close>

definition first_poll_rows :: "row list" where
  "first_poll_rows =
     [[(''start_time'', VTime 1000000), (''status'', VStr ''running''), (''text'', VStr ''select 1'')],
      [(''start_time'', VTime 2000000), (''status'', VStr ''sleeping''), (''text'', VStr ''select 2'')]]"

text \<open>The same, the sleeping session without a request (\<^verbatim>\<open>start_time\<close> is \<^verbatim>\<open>None\<close>).\<close>

definition first_poll_rows_idle :: "row list" where
  "first_poll_rows_idle =
     [[(''start_time'', VTime 1000000), (''status'', VStr ''running''), (''text'', VStr ''select 1'')],
      [(''start_time'', VNone), (''status'', VStr ''sleeping''), (''text'', VStr ''select 2'')]]"

text \<open>A poll whose activity fetch returns one row without a \<^verbatim>\<open>status\<close> column.\<close>

definition world_row_without_status :: world where
  "world_row_without_status =
     \<lparr>open_connection = None,
      cursor_execute =
        (\<lambda>q. case q of
               CONNECTIONS_QUERY \<Rightarrow> Inr sample_connections
             | ACTIVITY_QUERY args \<Rightarrow>
                 Inr ([''text'', ''start_time''], [[VStr ''select 1'', VTime 7000000]])),
      submit_event = (\<lambda>ev. None),
      agent_version = ''7.0'',
      clock = 100\<rparr>"

text \<open>
  A poll whose activity fetch returns a well-formed row and then a row without a
  \<^verbatim>\<open>start_time\<close> column.
\<close>

definition world_row_without_start_time :: world where
  "world_row_without_start_time =
     \<lparr>open_connection = None,
      cursor_execute =
        (\<lambda>q. case q of
               CONNECTIONS_QUERY \<Rightarrow> Inr sample_connections
             | ACTIVITY_QUERY args \<Rightarrow>
                 Inr ([''status'', ''text'', ''start_time''],
                      [[VStr ''running'', VStr ''select 1'', VTime 7000000],
                       [VStr ''running'', VStr ''select 2'']])),
      submit_event = (\<lambda>ev. None),
      agent_version = ''7.0'',
      clock = 100\<rparr>"

subsection \<open>The specification's wording of the exclusion\<close>

text \<open>
  The rows the specification has the fetch exclude when the watermark is \<open>T\<close>: the
  request side is absent and the transaction began more than \<open>collection_interval\<close>
  seconds before \<open>T\<close>.
\<close>

definition spec_excluded :: "int \<Rightarrow> real \<Rightarrow> candidate \<Rightarrow> bool" where
  "spec_excluded T interval x =
     (r_session_id x = None \<and> real_of_int (T - transaction_begin_time x) / 1000000 > interval)"

text \<open>A row without a \<^verbatim>\<open>status\<close> column, and one without a \<^verbatim>\<open>text\<close> column.\<close>

definition row_without_status :: row where
  "row_without_status = [(''text'', VStr ''select 1''), (''start_time'', VTime 7000000)]"

definition row_without_text :: row where
  "row_without_text = [(''status'', VStr ''running''), (''start_time'', VTime 7000000)]"

subsection \<open>Hexadecimal strings\<close>

definition is_hex_string :: "val \<Rightarrow> bool" where
  "is_hex_string v =
     (case v of
        VStr s \<Rightarrow> list_all (\<lambda>ch. ch \<in> set ''0123456789abcdef'') s
      | _ \<Rightarrow> False)"

text \<open>A row with an internal handle, a null column and both hashes.\<close>

definition row_with_handles :: row where
  "row_with_handles =
     [(''sql_handle'', VBytes [1, 2]), (''status'', VStr ''running''),
      (''text'', VStr ''select 1''), (''start_time'', VTime 7000000),
      (''wait_type'', VNone), (''query_hash'', VBytes [10, 255]),
      (''query_plan_hash'', VBytes [16]), (''context_info'', VBytes [])]"

text \<open>A row whose \<^verbatim>\<open>text\<close> is no string: the sample obfuscator raises on it.\<close>

definition row_not_obfuscatable :: row where
  "row_not_obfuscatable =
     [(''status'', VStr ''running''), (''text'', VInt 5), (''start_time'', VTime 7000000)]"

subsection \<open>Reaching a row\<close>

text \<open>
  The state in which the loop arrives behind a list of rows, when it passes all of them
  without returning or raising.
\<close>

fun loop_reaches :: "collaborators \<Rightarrow> real \<Rightarrow> loop_state \<Rightarrow> row list \<Rightarrow> loop_state option" where
  "loop_reaches c max_bytes_limit s [] = Some s"
| "loop_reaches c max_bytes_limit s (row # rows) =
     (case loop_body c max_bytes_limit s row of
        Continue s' \<Rightarrow> loop_reaches c max_bytes_limit s' rows
      | _ \<Rightarrow> None)"

subsection \<open>Rows the loop considers\<close>

text \<open>A \<^verbatim>\<open>start_time\<close> or a watermark as the driver delivers it: a datetime or \<^verbatim>\<open>None\<close>.\<close>

definition time_or_none :: "val \<Rightarrow> bool" where
  "time_or_none v = (case v of VNone \<Rightarrow> True | VTime t \<Rightarrow> True | _ \<Rightarrow> False)"

definition start_time_typed :: "row \<Rightarrow> bool" where
  "start_time_typed row =
     (case map_of row ''start_time'' of None \<Rightarrow> True | Some v \<Rightarrow> time_or_none v)"

text \<open>
  What the loop body makes of a row it does not suppress: the row after the \<^verbatim>\<open>try\<close>
  block, sanitized with the statement the block left.
\<close>

definition normalized_row :: "collaborators \<Rightarrow> row \<Rightarrow> py_exception + row" where
  "normalized_row c row =
     (case obfuscate_row c row of
        (row1, obfuscated_statement) \<Rightarrow> sanitize_row row1 obfuscated_statement)"

text \<open>The non-null start times of a list of rows.\<close>

definition start_times :: "row list \<Rightarrow> int list" where
  "start_times rows =
     concat (map (\<lambda>row. case map_of row ''start_time'' of Some (VTime t) \<Rightarrow> [t] | _ \<Rightarrow> []) rows)"

text \<open>
  The rows the loop considers: those it reaches and does not suppress, the row at which
  it returns or raises included.
\<close>

fun considered :: "collaborators \<Rightarrow> real \<Rightarrow> loop_state \<Rightarrow> row list \<Rightarrow> row list" where
  "considered c max_bytes_limit s [] = []"
| "considered c max_bytes_limit s (row # rows) =
     (case skip_idle (fst s) row of Inr False \<Rightarrow> [row] | _ \<Rightarrow> [])
     @ (case loop_body c max_bytes_limit s row of
          Continue s' \<Rightarrow> considered c max_bytes_limit s' rows
        | _ \<Rightarrow> [])"

text \<open>The rows one poll considers, and those a sequence of polls considers.\<close>

definition poll_considered :: "collaborators \<Rightarrow> world \<Rightarrow> job \<Rightarrow> row list" where
  "poll_considered c w self =
     (case open_connection w of
        Some e \<Rightarrow> []
      | None \<Rightarrow>
          (case get_active_connections w of
             Inl e \<Rightarrow> []
           | Inr connections \<Rightarrow>
               (case get_activity w self of
                  Inl e \<Rightarrow> []
                | Inr rows \<Rightarrow>
                    considered c MAX_PAYLOAD_BYTES (activity_last_query_start self, 0, []) rows)))"

fun all_considered :: "collaborators \<Rightarrow> world list \<Rightarrow> job \<Rightarrow> row list" where
  "all_considered c [] self = []"
| "all_considered c (w # ws) self =
     poll_considered c w self @ all_considered c ws (snd (collect_activity c w self))"

text \<open>The newest of a watermark and a list of times; the watermark itself when there are none.\<close>

definition newest :: "val \<Rightarrow> int list \<Rightarrow> val" where
  "newest last_query_start ts =
     (case last_query_start of
        VTime t \<Rightarrow> VTime (Max (set (t # ts)))
      | _ \<Rightarrow> if ts = [] then last_query_start else VTime (Max (set ts)))"

text \<open>Every row a cursor of these surroundings returns holds a datetime or \<^verbatim>\<open>None\<close> as start time.\<close>

definition start_times_typed :: "world \<Rightarrow> bool" where
  "start_times_typed w =
     (\<forall>q rows. fetch_rows w q = Inr rows \<longrightarrow> (\<forall>row\<in>set rows. start_time_typed row))"

text \<open>Three rows in ascending order of begin time.\<close>

definition three_rows :: "row list" where
  "three_rows =
     [[(''transaction_begin_time'', VTime 1000000), (''status'', VStr ''running''),
       (''text'', VStr ''select 1''), (''start_time'', VTime 1500000)],
      [(''transaction_begin_time'', VTime 2000000), (''status'', VStr ''running''),
       (''text'', VStr ''select 2''), (''start_time'', VTime 2500000)],
      [(''transaction_begin_time'', VTime 3000000), (''status'', VStr ''running''),
       (''text'', VStr ''select 3''), (''start_time'', VTime 3500000)]]"

definition three_rows_normalized :: "row list" where
  "three_rows_normalized =
     [[(''transaction_begin_time'', VTime 1000000), (''status'', VStr ''running''),
       (''text'', VStr ''select ?''), (''start_time'', VTime 1500000),
       (''query_signature'', VStr ''a1b2'')],
      [(''transaction_begin_time'', VTime 2000000), (''status'', VStr ''running''),
       (''text'', VStr ''select ?''), (''start_time'', VTime 2500000),
       (''query_signature'', VStr ''a1b2'')],
      [(''transaction_begin_time'', VTime 3000000), (''status'', VStr ''running''),
       (''text'', VStr ''select ?''), (''start_time'', VTime 3500000),
       (''query_signature'', VStr ''a1b2'')]]"

text \<open>"Never decreases once set": a set watermark is followed by a set one that is no older.\<close>

definition not_decreased :: "val \<Rightarrow> val \<Rightarrow> bool" where
  "not_decreased before after =
     (case before of
        VTime t \<Rightarrow> (case after of VTime t' \<Rightarrow> t \<le> t' | _ \<Rightarrow> False)
      | _ \<Rightarrow> True)"

text \<open>
  Collaborators under which the text of every row is longer than the payload limit, so
  that the first row the loop considers exceeds the budget.
\<close>

definition huge_str :: "row \<Rightarrow> string" where
  "huge_str r = replicate 20000000 (CHR ''x'')"

definition huge_collaborators :: collaborators where
  "huge_collaborators = sample_collaborators\<lparr>py_str := huge_str\<rparr>"

text \<open>Two polls: the first fetches one running row, the second two newer ones.\<close>

definition world_first_poll :: world where
  "world_first_poll =
     \<lparr>open_connection = None,
      cursor_execute =
        (\<lambda>q. case q of
               CONNECTIONS_QUERY \<Rightarrow> Inr sample_connections
             | ACTIVITY_QUERY args \<Rightarrow>
                 Inr ([''status'', ''text'', ''start_time''],
                      [[VStr ''running'', VStr ''select 1'', VTime 5000000]])),
      submit_event = (\<lambda>ev. None),
      agent_version = ''7.0'',
      clock = 100\<rparr>"

definition world_second_poll :: world where
  "world_second_poll =
     \<lparr>open_connection = None,
      cursor_execute =
        (\<lambda>q. case q of
               CONNECTIONS_QUERY \<Rightarrow> Inr sample_connections
             | ACTIVITY_QUERY args \<Rightarrow>
                 Inr ([''status'', ''text'', ''start_time''],
                      [[VStr ''running'', VStr ''select 2'', VTime 9000000],
                       [VStr ''running'', VStr ''select 3'', VTime 9900000]])),
      submit_event = (\<lambda>ev. None),
      agent_version = ''7.0'',
      clock = 110\<rparr>"

section \<open>Properties\<close>

subsection \<open>Failures of a poll\<close>

lemmas normalizer_defs =
  normalize_queries_and_filter_rows_def loop_body_def skip_idle_def getitem_def
  obfuscate_row_def set_last_activity_def sanitize_row_def hex_field_def
  dm_exec_requests_exclude_keys_def get_estimated_row_size_bytes_def

text \<open>
  C7. When the connection-summary fetch or the transaction-activity fetch raises, the poll
  goes through the handler: it returns the empty list, the failure counter goes up by
  one, no event is submitted, and the job is otherwise as it was, the watermark included.
\<close>

theorem collect_activity_fetch_failure:
  assumes "get_active_connections w = Inl e \<or> get_activity w self = Inl e"
  shows "collect_activity c w self
           = (ReturnsEmptyList, self\<lparr>error_count := error_count self + 1\<rparr>)
       \<and> submitted (snd (collect_activity c w self)) = submitted self
       \<and> activity_last_query_start (snd (collect_activity c w self))
           = activity_last_query_start self"
proof -
  have "collect_activity c w self = on_error self"
    using assms by (auto simp: collect_activity_def split: option.splits sum.splits)
  then show ?thesis by (simp add: on_error_def)
qed

theorem collect_activity_fetch_failure_witness:
  "get_activity world_activity_fetch_fails sample_job = Inl (ExternalError ''query timeout'')
   \<and> collect_activity sample_collaborators world_activity_fetch_fails sample_job
       = (ReturnsEmptyList, sample_job\<lparr>error_count := 1\<rparr>)
   \<and> submitted (snd (collect_activity sample_collaborators world_activity_fetch_fails sample_job)) = []
   \<and> activity_last_query_start
        (snd (collect_activity sample_collaborators world_activity_fetch_fails sample_job)) = VNone"
proof -
  have f: "get_activity world_activity_fetch_fails sample_job = Inl (ExternalError ''query timeout'')"
    by (simp add: get_activity_def fetch_rows_def world_activity_fetch_fails_def)
  have s: "error_count sample_job = 0" "submitted sample_job = []"
    "activity_last_query_start sample_job = VNone"
    by (simp_all add: sample_job_def init_job_def)
  show ?thesis
    using collect_activity_fetch_failure
      [of world_activity_fetch_fails "ExternalError ''query timeout''" sample_job sample_collaborators]
      f s
    by simp
qed

text \<open>
  C9. When both fetches and the normalizer have returned and serialising or submitting
  the event raises, the poll goes through the same handler (empty list, failure counter),
  and the job keeps the watermark the normalizer left: the exclusion predicate of the next
  poll is built from it, though no event was submitted.
\<close>

theorem collect_activity_submit_failure:
  assumes "open_connection w = None"
    and "get_active_connections w = Inr connections"
    and "get_activity w self = Inr rows"
    and "normalize_queries_and_filter_rows c (activity_last_query_start self) rows MAX_PAYLOAD_BYTES
           = (Inr normalized_rows, last_query_start')"
    and "submit_event w
           (create_activity_event w (self\<lparr>activity_last_query_start := last_query_start'\<rparr>)
              normalized_rows connections) = Some e"
  shows "collect_activity c w self
           = (ReturnsEmptyList,
              self\<lparr>activity_last_query_start := last_query_start',
                   error_count := error_count self + 1\<rparr>)
       \<and> submitted (snd (collect_activity c w self)) = submitted self
       \<and> where_clause (get_extra_activity_query_args (snd (collect_activity c w self)))
           = (if truthy last_query_start'
              then Some (SqlNot (SqlAnd R_session_id_is_NULL
                           (DateDiffSecondLess last_query_start' (collection_interval self))))
              else None)"
  using assms
  by (simp add: collect_activity_def on_error_def get_extra_activity_query_args_def)

theorem collect_activity_submit_failure_witness:
  "activity_last_query_start sample_job = VNone
   \<and> fst (collect_activity sample_collaborators world_submit_fails sample_job) = ReturnsEmptyList
   \<and> error_count (snd (collect_activity sample_collaborators world_submit_fails sample_job)) = 1
   \<and> submitted (snd (collect_activity sample_collaborators world_submit_fails sample_job)) = []
   \<and> activity_last_query_start
        (snd (collect_activity sample_collaborators world_submit_fails sample_job)) = VTime 7000000
   \<and> where_clause (get_extra_activity_query_args
        (snd (collect_activity sample_collaborators world_submit_fails sample_job)))
       = Some (SqlNot (SqlAnd R_session_id_is_NULL (DateDiffSecondLess (VTime 7000000) 10)))"
proof -
  let ?rows = "[[(''status'', VStr ''running''), (''text'', VStr ''select 1''),
                 (''start_time'', VTime 7000000)]]"
  let ?out = "[[(''status'', VStr ''running''), (''text'', VStr ''select ?''),
                (''start_time'', VTime 7000000), (''query_signature'', VStr ''a1b2'')]]"
  have s: "error_count sample_job = 0" "submitted sample_job = []"
    "activity_last_query_start sample_job = VNone" "collection_interval sample_job = 10"
    by (simp_all add: sample_job_def init_job_def DEFAULT_COLLECTION_INTERVAL_def)
  have o: "open_connection world_submit_fails = None"
    by (simp add: world_submit_fails_def)
  have a: "get_active_connections world_submit_fails
             = Inr [[(''user_name'', VStr ''sa''), (''connections'', VInt 2)]]"
    by (simp add: get_active_connections_def fetch_rows_def world_submit_fails_def
        sample_connections_def py_dict_def)
  have g: "get_activity world_submit_fails sample_job = Inr ?rows"
    by (simp add: get_activity_def fetch_rows_def world_submit_fails_def py_dict_def)
  have n: "normalize_queries_and_filter_rows sample_collaborators
             (activity_last_query_start sample_job) ?rows MAX_PAYLOAD_BYTES
           = (Inr ?out, VTime 7000000)"
    by (simp add: s normalizer_defs sample_collaborators_def MAX_PAYLOAD_BYTES_def)
  have e: "submit_event world_submit_fails
             (create_activity_event world_submit_fails
                (sample_job\<lparr>activity_last_query_start := VTime 7000000\<rparr>) ?out
                [[(''user_name'', VStr ''sa''), (''connections'', VInt 2)]])
           = Some (ExternalError ''not serializable'')"
    by (simp add: world_submit_fails_def)
  show ?thesis
    using collect_activity_submit_failure [OF o a g n e] s
    by (simp add: get_extra_activity_query_args_def)
qed

subsection \<open>The exclusion predicate\<close>

lemma job_with_watermark_fields: "activity_last_query_start job_with_watermark = VTime 1000000000"
  "collection_interval job_with_watermark = 10" "error_count job_with_watermark = 0"
  "submitted job_with_watermark = []"
  by (simp_all add: job_with_watermark_def sample_job_def init_job_def DEFAULT_COLLECTION_INTERVAL_def)

text \<open>
  C1, as the specification words it, fails on the code. With the watermark at second
  1000 and an interval of 10 seconds, an idle transaction begun 5 seconds before the
  watermark is one the specification has fetched, and the clause drops it; an idle
  transaction begun 100 seconds before the watermark is one the specification has
  excluded, and the clause fetches it.
\<close>

theorem exclusion_predicate_counterexample:
  "\<not> spec_excluded 1000000000 10 idle_recent
   \<and> \<not> fetched (get_extra_activity_query_args job_with_watermark) idle_recent
   \<and> spec_excluded 1000000000 10 idle_old
   \<and> fetched (get_extra_activity_query_args job_with_watermark) idle_old"
  by (simp add: spec_excluded_def fetched_def get_extra_activity_query_args_def job_with_watermark_fields
      idle_recent_def idle_old_def datediff_second_def)

text \<open>
  C1, amended. When the watermark is set to a time \<open>T\<close>, the clause excludes exactly the
  rows whose request side is absent (\<^verbatim>\<open>r.session_id\<close> is \<^verbatim>\<open>NULL\<close>) and for which
  \<^verbatim>\<open>DATEDIFF(second, transaction_begin_time, T)\<close> is less than the collection interval:
  the idle transactions begun fewer than \<open>collection_interval\<close> seconds before \<open>T\<close>, or
  after it. Idle transactions begun at least that long before \<open>T\<close>, and all rows with an
  active request, are fetched.
\<close>

theorem exclusion_predicate:
  assumes "activity_last_query_start self = VTime T"
  shows "fetched (get_extra_activity_query_args self) x
         \<longleftrightarrow> \<not> (r_session_id x = None
                \<and> real_of_int (datediff_second (transaction_begin_time x) T) < collection_interval self)"
  using assms by (simp add: fetched_def get_extra_activity_query_args_def)

theorem exclusion_predicate_witness:
  "activity_last_query_start job_with_watermark = VTime 1000000000
   \<and> \<not> fetched (get_extra_activity_query_args job_with_watermark) idle_recent
   \<and> fetched (get_extra_activity_query_args job_with_watermark) idle_old
   \<and> fetched (get_extra_activity_query_args job_with_watermark)
        \<lparr>r_session_id = Some 51, transaction_begin_time = 995000000\<rparr>"
  using exclusion_predicate [of job_with_watermark 1000000000 idle_recent]
    exclusion_predicate [of job_with_watermark 1000000000 idle_old]
    exclusion_predicate [of job_with_watermark 1000000000
      "\<lparr>r_session_id = Some 51, transaction_begin_time = 995000000\<rparr>"]
  by (simp add: job_with_watermark_fields idle_recent_def idle_old_def datediff_second_def)

subsection \<open>The first poll\<close>

text \<open>
  C2. On a first poll (watermark unset) the input of the specification's example, a
  running row followed by a sleeping row, comes out with both rows: the running row
  sets the watermark, and the test that suppresses sleeping rows reads the watermark
  anew for each row. The same holds when the sleeping row has no \<^verbatim>\<open>start_time\<close>.
\<close>

theorem first_poll_keeps_sleeping_row:
  "normalize_queries_and_filter_rows sample_collaborators VNone first_poll_rows MAX_PAYLOAD_BYTES
     = (Inr [[(''start_time'', VTime 1000000), (''status'', VStr ''running''),
              (''text'', VStr ''select ?''), (''query_signature'', VStr ''a1b2'')],
             [(''start_time'', VTime 2000000), (''status'', VStr ''sleeping''),
              (''text'', VStr ''select ?''), (''query_signature'', VStr ''a1b2'')]],
        VTime 2000000)
   \<and> normalize_queries_and_filter_rows sample_collaborators VNone first_poll_rows_idle MAX_PAYLOAD_BYTES
     = (Inr [[(''start_time'', VTime 1000000), (''status'', VStr ''running''),
              (''text'', VStr ''select ?''), (''query_signature'', VStr ''a1b2'')],
             [(''status'', VStr ''sleeping''),
              (''text'', VStr ''select ?''), (''query_signature'', VStr ''a1b2'')]],
        VTime 1000000)"
  by (simp add: normalizer_defs sample_collaborators_def MAX_PAYLOAD_BYTES_def
      first_poll_rows_def first_poll_rows_idle_def)

subsection \<open>What the loop raises\<close>

lemma norm_loop_append:
  "loop_reaches c B s pre = Some s' \<Longrightarrow> norm_loop c B s (pre @ rest) = norm_loop c B s' rest"
  by (induction pre arbitrary: s) (auto split: loop_step.splits)

lemma map_of_obfuscate_row:
  "k \<noteq> ''query_signature'' \<Longrightarrow> map_of (fst (obfuscate_row c row)) k = map_of row k"
  by (auto simp: obfuscate_row_def update_conv' split: sum.splits)

lemma loop_body_missing_status:
  "map_of row ''status'' = None \<Longrightarrow>
   loop_body c B (VNone, est, acc) row = Raise (KeyError ''status'') VNone"
  by (simp add: loop_body_def skip_idle_def getitem_def)

lemma loop_body_missing_start_time:
  assumes "skip_idle wm row = Inr False" and "map_of row ''start_time'' = None"
  shows "loop_body c B (wm, est, acc) row = Raise (KeyError ''start_time'') wm"
proof -
  obtain row1 obf where o: "obfuscate_row c row = (row1, obf)" by (cases "obfuscate_row c row")
  have "map_of row1 ''start_time'' = None"
    using map_of_obfuscate_row [of "''start_time''" c row] o assms(2) by simp
  then have "set_last_activity wm row1 = Inl (KeyError ''start_time'')"
    by (simp add: set_last_activity_def getitem_def)
  then show ?thesis using assms(1) o by (simp add: loop_body_def)
qed

lemma skip_idle_raises: "skip_idle wm row = Inl e \<Longrightarrow> e = KeyError ''status''"
  by (auto simp: skip_idle_def getitem_def split: if_splits option.splits)

lemma py_gt_raises: "py_gt a b = Inl e \<Longrightarrow> e = TypeError"
  by (cases "(a, b)" rule: py_gt.cases) (auto split: option.splits)

lemma set_last_activity_raises:
  "set_last_activity wm row = Inl e \<Longrightarrow> e = KeyError ''start_time'' \<or> e = TypeError"
  by (auto simp: set_last_activity_def getitem_def split: if_splits option.splits sum.splits
      dest: py_gt_raises)

lemma hash_to_hex_raises: "hash_to_hex h = Inl e \<Longrightarrow> e = TypeError"
  by (auto simp: hash_to_hex_def split: val.splits)

lemma hex_field_raises: "hex_field k row = Inl e \<Longrightarrow> e = TypeError"
  by (auto simp: hex_field_def split: option.splits sum.splits dest: hash_to_hex_raises)

lemma sanitize_row_raises: "sanitize_row row obf = Inl e \<Longrightarrow> e = TypeError"
  by (auto simp: sanitize_row_def Let_def split: sum.splits dest: hex_field_raises)

lemma loop_body_raises:
  assumes "loop_body c B s row = Raise e wm'"
  shows "e = KeyError ''status'' \<or> e = KeyError ''start_time'' \<or> e = TypeError"
proof -
  obtain wm est acc where s: "s = (wm, est, acc)" by (cases s)
  obtain row1 obf where o: "obfuscate_row c row = (row1, obf)" by (cases "obfuscate_row c row")
  show ?thesis
  proof (cases "skip_idle wm row")
    case (Inl e')
    then show ?thesis using assms s skip_idle_raises [OF Inl] by (simp add: loop_body_def)
  next
    case (Inr b)
    show ?thesis
    proof (cases b)
      case True
      then show ?thesis using assms s Inr by (simp add: loop_body_def)
    next
      case False
      show ?thesis
      proof (cases "set_last_activity wm row1")
        case (Inl e')
        then show ?thesis
          using assms s Inr False o set_last_activity_raises [OF Inl] by (simp add: loop_body_def)
      next
        case wmr: (Inr wm1)
        show ?thesis
        proof (cases "sanitize_row row1 obf")
          case (Inl e')
          then show ?thesis
            using assms s Inr False o wmr sanitize_row_raises [OF Inl] by (simp add: loop_body_def)
        next
          case sr: (Inr row2)
          then show ?thesis
            using assms s Inr False o wmr
            by (simp add: loop_body_def Let_def split: if_splits)
        qed
      qed
    qed
  qed
qed

lemma loop_body_never_raises_text:
  "loop_body c B s row \<noteq> Raise (KeyError ''text'') wm'"
  using loop_body_raises [of c B s row "KeyError ''text''" wm'] by auto

subsection \<open>Sanitized rows\<close>

lemma hex_digit_mem: "n < 16 \<Longrightarrow> hex_digit n \<in> set ''0123456789abcdef''"
  unfolding hex_digit_def by (rule nth_mem) simp

lemma hexlify_hex: "list_all (\<lambda>ch. ch \<in> set ''0123456789abcdef'') (hexlify bs)"
proof (induction bs)
  case Nil
  then show ?case by (simp add: hexlify_def)
next
  case (Cons b bs)
  have "unat b < 256" using unsigned_less [of b, where ?'a = nat] by simp
  then have "unat b div 16 < 16" "unat b mod 16 < 16" by simp_all
  then have "hex_digit (unat b div 16) \<in> set ''0123456789abcdef''"
    "hex_digit (unat b mod 16) \<in> set ''0123456789abcdef''"
    using hex_digit_mem by blast+
  then show ?case using Cons by (simp add: hexlify_def)
qed

lemma hash_to_hex_is_hex: "hash_to_hex h = Inr v \<Longrightarrow> is_hex_string v \<and> v \<noteq> VNone"
  using hexlify_hex by (auto simp: hash_to_hex_def is_hex_string_def to_native_string_def split: val.splits)

lemma set_update_subset: "set (AList.update k v al) \<subseteq> insert (k, v) (set al)"
  by (induction al) auto

lemma hex_field_keys:
  assumes "hex_field k row = Inr row'"
  shows "fst ` set row' = fst ` set row"
proof (cases "map_of row k")
  case None
  then show ?thesis using assms by (simp add: hex_field_def)
next
  case (Some h)
  then obtain v where r: "row' = AList.update k v row"
    using assms by (auto simp: hex_field_def split: sum.splits)
  have "k \<in> fst ` set row" using Some by (metis map_of_eq_None_iff option.distinct(1))
  then show ?thesis using r by (auto simp: dom_update)
qed

lemma hex_field_values:
  assumes "hex_field k row = Inr row'" and "\<forall>(key, v)\<in>set row. v \<noteq> VNone"
  shows "\<forall>(key, v)\<in>set row'. v \<noteq> VNone"
proof (cases "map_of row k")
  case None
  then show ?thesis using assms by (simp add: hex_field_def)
next
  case (Some h)
  then obtain v where v: "hash_to_hex h = Inr v" and r: "row' = AList.update k v row"
    using assms(1) by (auto simp: hex_field_def split: sum.splits)
  have "v \<noteq> VNone" using hash_to_hex_is_hex [OF v] by simp
  then show ?thesis using assms(2) set_update_subset [of k v row] r by auto
qed

lemma hex_field_other: "hex_field k row = Inr row' \<Longrightarrow> k' \<noteq> k \<Longrightarrow> map_of row' k' = map_of row k'"
  by (auto simp: hex_field_def update_conv' split: option.splits sum.splits)

lemma hex_field_hex: "hex_field k row = Inr row' \<Longrightarrow> map_of row' k = Some v \<Longrightarrow> is_hex_string v"
  by (auto simp: hex_field_def update_conv' split: option.splits sum.splits dest: hash_to_hex_is_hex)

lemma sanitize_row_props:
  assumes "sanitize_row row obf = Inr out"
  shows "\<forall>key\<in>set dm_exec_requests_exclude_keys. key \<notin> fst ` set out"
    and "\<forall>(key, v)\<in>set out. v \<noteq> VNone"
    and "map_of out ''text'' = Some (VStr obf)"
    and "\<forall>key\<in>{''query_hash'', ''query_plan_hash''}. \<forall>v. map_of out key = Some v \<longrightarrow> is_hex_string v"
    and "fst ` set out \<subseteq> insert ''text'' (fst ` set row)"
proof -
  define row1 where "row1 = filter (\<lambda>(key, v). key \<notin> set dm_exec_requests_exclude_keys \<and> v \<noteq> VNone) row"
  define row2 where "row2 = AList.update ''text'' (VStr obf) row1"
  obtain row3 where h1: "hex_field ''query_hash'' row2 = Inr row3"
    and h2: "hex_field ''query_plan_hash'' row3 = Inr out"
    using assms by (auto simp: sanitize_row_def Let_def row1_def row2_def split: sum.splits)
  have keys: "fst ` set out = insert ''text'' (fst ` set row1)"
    using hex_field_keys [OF h1] hex_field_keys [OF h2] by (simp add: row2_def dom_update)
  have k1: "\<forall>key\<in>set dm_exec_requests_exclude_keys. key \<notin> fst ` set row1"
    by (auto simp: row1_def)
  have "''text'' \<notin> set dm_exec_requests_exclude_keys"
    by (simp add: dm_exec_requests_exclude_keys_def)
  then show "\<forall>key\<in>set dm_exec_requests_exclude_keys. key \<notin> fst ` set out"
    using keys k1 by auto
  have "\<forall>(key, v)\<in>set row1. v \<noteq> VNone" by (auto simp: row1_def)
  then have "\<forall>(key, v)\<in>set row2. v \<noteq> VNone"
    using set_update_subset [of "''text''" "VStr obf" row1] by (auto simp: row2_def)
  then show "\<forall>(key, v)\<in>set out. v \<noteq> VNone"
    using hex_field_values [OF h1] hex_field_values [OF h2] by blast
  have "map_of row2 ''text'' = Some (VStr obf)" by (simp add: row2_def update_conv')
  then show "map_of out ''text'' = Some (VStr obf)"
    using hex_field_other [OF h1, of "''text''"] hex_field_other [OF h2, of "''text''"] by simp
  have a: "\<forall>v. map_of out ''query_plan_hash'' = Some v \<longrightarrow> is_hex_string v"
    using hex_field_hex [OF h2] by blast
  have "map_of out ''query_hash'' = map_of row3 ''query_hash''"
    using hex_field_other [OF h2, of "''query_hash''"] by simp
  then have b: "\<forall>v. map_of out ''query_hash'' = Some v \<longrightarrow> is_hex_string v"
    using hex_field_hex [OF h1] by simp
  show "\<forall>key\<in>{''query_hash'', ''query_plan_hash''}. \<forall>v. map_of out key = Some v \<longrightarrow> is_hex_string v"
    using a b by simp
  have "fst ` set row1 \<subseteq> fst ` set row" by (auto simp: row1_def)
  then show "fst ` set out \<subseteq> insert ''text'' (fst ` set row)" using keys by auto
qed

lemma loop_body_Continue:
  assumes "loop_body c B (wm, est, acc) row = Continue (wm', est', acc')"
  shows "(skip_idle wm row = Inr True \<and> wm' = wm \<and> est' = est \<and> acc' = acc)
       \<or> (\<exists>out. skip_idle wm row = Inr False
            \<and> set_last_activity wm (fst (obfuscate_row c row)) = Inr wm'
            \<and> sanitize_row (fst (obfuscate_row c row)) (snd (obfuscate_row c row)) = Inr out
            \<and> est' = est + get_estimated_row_size_bytes c out
            \<and> \<not> real est' > B
            \<and> acc' = acc @ [out])"
  using assms
  by (auto simp: loop_body_def Let_def split: sum.splits bool.splits prod.splits if_splits)

lemma loop_body_Return:
  assumes "loop_body c B (wm, est, acc) row = Return rs wm'"
  shows "rs = acc"
  using assms
  by (auto simp: loop_body_def Let_def split: sum.splits bool.splits prod.splits if_splits)

lemma obfuscate_row_statement:
  "snd (obfuscate_row c row) = obfuscation_failed_text
   \<or> (\<exists>t. getitem row ''text'' = Inr t \<and> obfuscate_sql c t = Inr (snd (obfuscate_row c row)))"
  by (auto simp: obfuscate_row_def split: sum.splits)

lemma considered_subset: "set (considered c B s rows) \<subseteq> set rows"
proof (induction rows arbitrary: s)
  case Nil
  then show ?case by simp
next
  case (Cons row rows)
  then show ?case
    by (auto split: sum.splits bool.splits loop_step.splits)
qed

lemma normalized_row_eq:
  "normalized_row c row = sanitize_row (fst (obfuscate_row c row)) (snd (obfuscate_row c row))"
  by (simp add: normalized_row_def split: prod.splits)

lemma norm_loop_outputs:
  assumes "norm_loop c B (wm, est, acc) rows = (Inr outs, wm')"
  shows "\<exists>new. outs = acc @ new
           \<and> length new \<le> length (considered c B (wm, est, acc) rows)
           \<and> map (normalized_row c) (take (length new) (considered c B (wm, est, acc) rows))
               = map Inr new"
  using assms
proof (induction rows arbitrary: wm est acc)
  case Nil
  then show ?case by simp
next
  case (Cons row rows)
  show ?case
  proof (cases "loop_body c B (wm, est, acc) row")
    case (Continue s')
    obtain wm1 est1 acc1 where s': "s' = (wm1, est1, acc1)" by (cases s')
    have n: "norm_loop c B (wm1, est1, acc1) rows = (Inr outs, wm')"
      using Cons.prems Continue s' by simp
    obtain new where new: "outs = acc1 @ new"
      "length new \<le> length (considered c B (wm1, est1, acc1) rows)"
      "map (normalized_row c) (take (length new) (considered c B (wm1, est1, acc1) rows)) = map Inr new"
      using Cons.IH [OF n] by blast
    from loop_body_Continue [OF Continue [unfolded s']]
    consider (skipped) "skip_idle wm row = Inr True" "wm1 = wm" "est1 = est" "acc1 = acc"
      | (accepted) out where "skip_idle wm row = Inr False"
          "sanitize_row (fst (obfuscate_row c row)) (snd (obfuscate_row c row)) = Inr out"
          "acc1 = acc @ [out]"
      by blast
    then show ?thesis
    proof cases
      case skipped
      then show ?thesis using Continue s' new by simp
    next
      case accepted
      have c: "considered c B (wm, est, acc) (row # rows) = row # considered c B (wm1, est1, acc1) rows"
        using accepted(1) Continue s' by simp
      have "outs = acc @ (out # new)" using new(1) accepted(3) by simp
      moreover have "length (out # new) \<le> length (considered c B (wm, est, acc) (row # rows))"
        using new(2) c by simp
      moreover have "map (normalized_row c)
           (take (length (out # new)) (considered c B (wm, est, acc) (row # rows)))
          = map Inr (out # new)"
        using new(3) c accepted(2) by (simp add: normalized_row_eq)
      ultimately show ?thesis by blast
    qed
  next
    case (Return rs wm1)
    then have "outs = acc" using Cons.prems loop_body_Return [OF Return] by simp
    then show ?thesis by simp
  next
    case (Raise e wm1)
    then show ?thesis using Cons.prems by simp
  qed
qed

lemma two_rows_run:
  "normalize_queries_and_filter_rows sample_collaborators VNone
     [row_with_handles, row_not_obfuscatable] MAX_PAYLOAD_BYTES
   = (Inr [[(''status'', VStr ''running''), (''text'', VStr ''select ?''),
            (''start_time'', VTime 7000000), (''query_hash'', VStr ''0aff''),
            (''query_plan_hash'', VStr ''10''), (''query_signature'', VStr ''a1b2'')],
           [(''status'', VStr ''running''), (''text'', VStr ''ERROR: failed to obfuscate''),
            (''start_time'', VTime 7000000)]],
      VTime 7000000)"
  by (simp add: normalizer_defs sample_collaborators_def MAX_PAYLOAD_BYTES_def
      row_with_handles_def row_not_obfuscatable_def hash_to_hex_def hexlify_def hex_digit_def
      to_native_string_def obfuscation_failed_text_def)

lemma two_rows_considered:
  "considered sample_collaborators MAX_PAYLOAD_BYTES (VNone, 0, [])
     [row_with_handles, row_not_obfuscatable] = [row_with_handles, row_not_obfuscatable]"
  by (simp add: loop_body_def skip_idle_def getitem_def obfuscate_row_def set_last_activity_def
      sanitize_row_def hex_field_def dm_exec_requests_exclude_keys_def
      get_estimated_row_size_bytes_def sample_collaborators_def MAX_PAYLOAD_BYTES_def
      row_with_handles_def row_not_obfuscatable_def hash_to_hex_def)

text \<open>
  C5. The \<open>i\<close>-th row the normalizer returns is the normalized form of the \<open>i\<close>-th input
  row the loop considered. It has none of the keys \<^verbatim>\<open>sql_handle\<close>, \<^verbatim>\<open>plan_handle\<close>,
  \<^verbatim>\<open>statement_sql_handle\<close>, \<^verbatim>\<open>task_address\<close>, \<^verbatim>\<open>page_resource\<close>, \<^verbatim>\<open>scheduler_id\<close>,
  \<^verbatim>\<open>context_info\<close> (the excluded-key set of the module is exactly these seven), it has no
  null value, it holds under \<^verbatim>\<open>text\<close> the statement the \<^verbatim>\<open>try\<close> block left for that
  input row (the obfuscator's result for the row's own text, or the sentinel), and it
  holds under \<^verbatim>\<open>query_hash\<close> and \<^verbatim>\<open>query_plan_hash\<close>, when present, a string of
  hexadecimal digits.
\<close>

theorem output_rows_sanitized:
  assumes "normalize_queries_and_filter_rows c last_query_start rows max_bytes_limit
             = (Inr normalized_rows, last_query_start')"
    and "i < length normalized_rows"
    and "row = considered c max_bytes_limit (last_query_start, 0, []) rows ! i"
    and "out = normalized_rows ! i"
  shows "i < length (considered c max_bytes_limit (last_query_start, 0, []) rows)
       \<and> row \<in> set rows
       \<and> normalized_row c row = Inr out
       \<and> set dm_exec_requests_exclude_keys
           = {''sql_handle'', ''plan_handle'', ''statement_sql_handle'', ''task_address'',
              ''page_resource'', ''scheduler_id'', ''context_info''}
       \<and> (\<forall>key\<in>{''sql_handle'', ''plan_handle'', ''statement_sql_handle'', ''task_address'',
                  ''page_resource'', ''scheduler_id'', ''context_info''}. key \<notin> fst ` set out)
       \<and> (\<forall>(key, v)\<in>set out. v \<noteq> VNone)
       \<and> map_of out ''text'' = Some (VStr (snd (obfuscate_row c row)))
       \<and> (snd (obfuscate_row c row) = obfuscation_failed_text
           \<or> (\<exists>t. getitem row ''text'' = Inr t
                  \<and> obfuscate_sql c t = Inr (snd (obfuscate_row c row))))
       \<and> (\<forall>key\<in>{''query_hash'', ''query_plan_hash''}.
            \<forall>v. map_of out key = Some v \<longrightarrow> is_hex_string v)"
proof -
  let ?cons = "considered c max_bytes_limit (last_query_start, 0, []) rows"
  have l: "length normalized_rows \<le> length ?cons"
    and m: "map (normalized_row c) (take (length normalized_rows) ?cons) = map Inr normalized_rows"
    using norm_loop_outputs [OF assms(1) [unfolded normalize_queries_and_filter_rows_def]]
    by auto
  have i: "i < length ?cons" using l assms(2) by simp
  have "map (normalized_row c) (take (length normalized_rows) ?cons) ! i
        = map Inr normalized_rows ! i"
    using m by simp
  then have n: "normalized_row c row = Inr out"
    using assms(2-4) i l by simp
  have r: "row \<in> set rows"
    using considered_subset [of c max_bytes_limit "(last_query_start, 0, [])" rows] i assms(3)
    by (metis nth_mem subsetD)
  have s: "sanitize_row (fst (obfuscate_row c row)) (snd (obfuscate_row c row)) = Inr out"
    using n by (simp add: normalized_row_eq)
  have k: "set dm_exec_requests_exclude_keys
           = {''sql_handle'', ''plan_handle'', ''statement_sql_handle'', ''task_address'',
              ''page_resource'', ''scheduler_id'', ''context_info''}"
    by (simp add: dm_exec_requests_exclude_keys_def)
  have e: "\<forall>key\<in>{''sql_handle'', ''plan_handle'', ''statement_sql_handle'', ''task_address'',
                  ''page_resource'', ''scheduler_id'', ''context_info''}. key \<notin> fst ` set out"
    using sanitize_row_props(1) [OF s] unfolding k .
  show ?thesis
    using i r n k e sanitize_row_props(2-4) [OF s] obfuscate_row_statement [of c row]
    by blast
qed

theorem output_rows_sanitized_witness:
  "normalize_queries_and_filter_rows sample_collaborators VNone
     [row_with_handles, row_not_obfuscatable] MAX_PAYLOAD_BYTES
   = (Inr [[(''status'', VStr ''running''), (''text'', VStr ''select ?''),
            (''start_time'', VTime 7000000), (''query_hash'', VStr ''0aff''),
            (''query_plan_hash'', VStr ''10''), (''query_signature'', VStr ''a1b2'')],
           [(''status'', VStr ''running''), (''text'', VStr ''ERROR: failed to obfuscate''),
            (''start_time'', VTime 7000000)]],
      VTime 7000000)
   \<and> normalized_row sample_collaborators row_with_handles
       = Inr [(''status'', VStr ''running''), (''text'', VStr ''select ?''),
              (''start_time'', VTime 7000000), (''query_hash'', VStr ''0aff''),
              (''query_plan_hash'', VStr ''10''), (''query_signature'', VStr ''a1b2'')]
   \<and> normalized_row sample_collaborators row_not_obfuscatable
       = Inr [(''status'', VStr ''running''), (''text'', VStr ''ERROR: failed to obfuscate''),
              (''start_time'', VTime 7000000)]
   \<and> map_of row_with_handles ''text'' = Some (VStr ''select 1'')
   \<and> snd (obfuscate_row sample_collaborators row_with_handles) = ''select ?''
   \<and> snd (obfuscate_row sample_collaborators row_not_obfuscatable) = ''ERROR: failed to obfuscate''
   \<and> is_hex_string (VStr ''0aff'') \<and> is_hex_string (VStr ''10'')
   \<and> \<not> is_hex_string (VBytes [10, 255])"
proof -
  let ?out0 = "[(''status'', VStr ''running''), (''text'', VStr ''select ?''),
                (''start_time'', VTime 7000000), (''query_hash'', VStr ''0aff''),
                (''query_plan_hash'', VStr ''10''), (''query_signature'', VStr ''a1b2'')]"
  let ?out1 = "[(''status'', VStr ''running''), (''text'', VStr ''ERROR: failed to obfuscate''),
                (''start_time'', VTime 7000000)]"
  have r0: "row_with_handles = considered sample_collaborators MAX_PAYLOAD_BYTES (VNone, 0, [])
              [row_with_handles, row_not_obfuscatable] ! 0"
    and r1: "row_not_obfuscatable = considered sample_collaborators MAX_PAYLOAD_BYTES (VNone, 0, [])
              [row_with_handles, row_not_obfuscatable] ! 1"
    unfolding two_rows_considered by simp_all
  have o0: "?out0 = [?out0, ?out1] ! 0" and o1: "?out1 = [?out0, ?out1] ! 1" by simp_all
  have i0: "0 < length [?out0, ?out1]" and i1: "1 < length [?out0, ?out1]" by simp_all
  note t0 = output_rows_sanitized [OF two_rows_run i0 r0 o0]
  note t1 = output_rows_sanitized [OF two_rows_run i1 r1 o1]
  have n0: "normalized_row sample_collaborators row_with_handles = Inr ?out0"
    and h: "is_hex_string (VStr ''0aff'') \<and> is_hex_string (VStr ''10'')"
    and x0: "map_of ?out0 ''text'' = Some (VStr (snd (obfuscate_row sample_collaborators row_with_handles)))"
    using t0 by simp_all
  have n1: "normalized_row sample_collaborators row_not_obfuscatable = Inr ?out1"
    and x1: "map_of ?out1 ''text''
             = Some (VStr (snd (obfuscate_row sample_collaborators row_not_obfuscatable)))"
    using t1 by simp_all
  show ?thesis
    using two_rows_run n0 n1 h x0 x1
    by (simp add: row_with_handles_def is_hex_string_def)
qed

subsection \<open>Failed obfuscation\<close>

lemma obfuscate_row_failed:
  assumes "getitem row ''text'' = Inl e
           \<or> (\<exists>t. getitem row ''text'' = Inr t
                  \<and> (obfuscate_sql c t = Inl e
                     \<or> (\<exists>s. obfuscate_sql c t = Inr s \<and> compute_sql_signature c s = Inl e)))"
  shows "obfuscate_row c row = (row, obfuscation_failed_text)"
  using assms by (auto simp: obfuscate_row_def)

text \<open>
  C8. When reading, obfuscating or signing the text of a row raises, and the fetched row
  has no \<^verbatim>\<open>query_signature\<close> column of its own, the row the loop body appends to the
  output has no \<^verbatim>\<open>query_signature\<close> key, and its text is the sentinel: no signature is
  computed from the sentinel.
\<close>

theorem failed_obfuscation_has_no_signature:
  assumes "getitem row ''text'' = Inl e
           \<or> (\<exists>t. getitem row ''text'' = Inr t
                  \<and> (obfuscate_sql c t = Inl e
                     \<or> (\<exists>s. obfuscate_sql c t = Inr s \<and> compute_sql_signature c s = Inl e)))"
    and "''query_signature'' \<notin> fst ` set row"
    and "skip_idle last_query_start row = Inr False"
    and "loop_body c max_bytes_limit (last_query_start, estimated_size, normalized_rows) row
           = Continue (last_query_start', estimated_size', normalized_rows')"
  shows "\<exists>out. normalized_rows' = normalized_rows @ [out]
             \<and> ''query_signature'' \<notin> fst ` set out
             \<and> map_of out ''text'' = Some (VStr obfuscation_failed_text)"
proof -
  have o: "obfuscate_row c row = (row, obfuscation_failed_text)"
    using obfuscate_row_failed [OF assms(1)] .
  obtain out where s: "sanitize_row row obfuscation_failed_text = Inr out"
    and a: "normalized_rows' = normalized_rows @ [out]"
    using loop_body_Continue [OF assms(4)] assms(3) o by auto
  have "''query_signature'' \<notin> fst ` set out"
    using sanitize_row_props(5) [OF s] assms(2) by auto
  then show ?thesis using a sanitize_row_props(3) [OF s] by simp
qed

theorem failed_obfuscation_has_no_signature_witness:
  "obfuscate_sql sample_collaborators (VInt 5) = Inl (ExternalError ''obfuscate_sql'')
   \<and> loop_body sample_collaborators MAX_PAYLOAD_BYTES (VNone, 0, []) row_not_obfuscatable
       = Continue (VTime 7000000, 40,
           [[(''status'', VStr ''running''), (''text'', VStr ''ERROR: failed to obfuscate''),
             (''start_time'', VTime 7000000)]])
   \<and> ''query_signature'' \<notin> fst ` set [(''status'', VStr ''running''),
          (''text'', VStr ''ERROR: failed to obfuscate''), (''start_time'', VTime 7000000)]"
proof -
  let ?out = "[(''status'', VStr ''running''), (''text'', VStr ''ERROR: failed to obfuscate''),
               (''start_time'', VTime 7000000)]"
  have f: "getitem row_not_obfuscatable ''text'' = Inl (ExternalError ''obfuscate_sql'')
           \<or> (\<exists>t. getitem row_not_obfuscatable ''text'' = Inr t
                  \<and> (obfuscate_sql sample_collaborators t = Inl (ExternalError ''obfuscate_sql'')
                     \<or> (\<exists>s. obfuscate_sql sample_collaborators t = Inr s
                            \<and> compute_sql_signature sample_collaborators s
                                = Inl (ExternalError ''obfuscate_sql''))))"
    by (simp add: getitem_def row_not_obfuscatable_def sample_collaborators_def)
  have n: "''query_signature'' \<notin> fst ` set row_not_obfuscatable"
    by (simp add: row_not_obfuscatable_def)
  have k: "skip_idle VNone row_not_obfuscatable = Inr False"
    by (simp add: skip_idle_def getitem_def row_not_obfuscatable_def)
  have l: "loop_body sample_collaborators MAX_PAYLOAD_BYTES (VNone, 0, []) row_not_obfuscatable
             = Continue (VTime 7000000, 40, [?out])"
    by (simp add: loop_body_def skip_idle_def getitem_def obfuscate_row_def set_last_activity_def
        sanitize_row_def hex_field_def dm_exec_requests_exclude_keys_def
        get_estimated_row_size_bytes_def sample_collaborators_def MAX_PAYLOAD_BYTES_def
        row_not_obfuscatable_def obfuscation_failed_text_def)
  have "\<exists>out. [?out] = [] @ [out] \<and> ''query_signature'' \<notin> fst ` set out
          \<and> map_of out ''text'' = Some (VStr obfuscation_failed_text)"
    using failed_obfuscation_has_no_signature [OF f n k l] .
  then have "''query_signature'' \<notin> fst ` set ?out" by simp
  then show ?thesis using l by (simp add: sample_collaborators_def)
qed


subsection \<open>The size budget\<close>

lemma time_or_none_cases: "time_or_none v \<longleftrightarrow> v = VNone \<or> (\<exists>t. v = VTime t)"
  by (cases v) (simp_all add: time_or_none_def)

lemma set_last_activity_typed:
  assumes "time_or_none wm" and "map_of row ''start_time'' = Some v" and "time_or_none v"
  shows "\<exists>wm'. set_last_activity wm row = Inr wm' \<and> time_or_none wm' \<and> (wm \<noteq> VNone \<longrightarrow> wm' \<noteq> VNone)"
  using assms
  by (auto simp: time_or_none_cases set_last_activity_def getitem_def)

lemma norm_loop_cutoff:
  assumes "time_or_none wm"
    and "\<forall>row\<in>set rows. \<exists>v. map_of row ''start_time'' = Some v \<and> time_or_none v"
    and "wm \<noteq> VNone \<or> (\<forall>row\<in>set rows. skip_idle VNone row = Inr False)"
    and "map (normalized_row c) rows = map Inr outs"
    and "k < length rows"
    and "\<forall>j<k. real (est + sum_list (map (get_estimated_row_size_bytes c) (take (Suc j) outs))) \<le> B"
    and "real (est + sum_list (map (get_estimated_row_size_bytes c) (take (Suc k) outs))) > B"
  shows "fst (norm_loop c B (wm, est, acc) rows) = Inr (acc @ take k outs)"
  using assms
proof (induction rows arbitrary: wm est acc outs k)
  case Nil
  then show ?case by simp
next
  case (Cons row rows)
  obtain out outs' where outs: "outs = out # outs'"
    using Cons.prems(4) by (cases outs) auto
  have nr: "normalized_row c row = Inr out" and rest: "map (normalized_row c) rows = map Inr outs'"
    using Cons.prems(4) outs by auto
  have sk: "skip_idle wm row = Inr False"
    using Cons.prems(3) by (auto simp: skip_idle_def)
  obtain v where v: "map_of row ''start_time'' = Some v" "time_or_none v"
    using Cons.prems(2) by auto
  have "map_of (fst (obfuscate_row c row)) ''start_time'' = Some v"
    using map_of_obfuscate_row [of "''start_time''" c row] v(1) by simp
  then obtain wm1 where wm1: "set_last_activity wm (fst (obfuscate_row c row)) = Inr wm1"
    "time_or_none wm1" "wm \<noteq> VNone \<longrightarrow> wm1 \<noteq> VNone"
    using set_last_activity_typed [OF Cons.prems(1) _ v(2)] by blast
  have sr: "sanitize_row (fst (obfuscate_row c row)) (snd (obfuscate_row c row)) = Inr out"
    using nr by (simp add: normalized_row_def split: prod.splits)
  let ?sz = "get_estimated_row_size_bytes c out"
  have body: "loop_body c B (wm, est, acc) row
              = (if real (est + ?sz) > B then Return acc wm1
                 else Continue (wm1, est + ?sz, acc @ [out]))"
    using sk wm1(1) sr by (cases "obfuscate_row c row") (simp add: loop_body_def Let_def)
  show ?case
  proof (cases k)
    case 0
    then have "real (est + ?sz) > B" using Cons.prems(7) outs by simp
    then show ?thesis using body 0 by simp
  next
    case (Suc k')
    have "real (est + ?sz) \<le> B" using Cons.prems(6) [rule_format, of 0] Suc outs by simp
    then have step: "norm_loop c B (wm, est, acc) (row # rows)
                     = norm_loop c B (wm1, est + ?sz, acc @ [out]) rows"
      using body by simp
    have a2: "\<forall>row\<in>set rows. \<exists>v. map_of row ''start_time'' = Some v \<and> time_or_none v"
      using Cons.prems(2) by simp
    have a3: "wm1 \<noteq> VNone \<or> (\<forall>row\<in>set rows. skip_idle VNone row = Inr False)"
      using Cons.prems(3) wm1(3) by auto
    have a5: "k' < length rows" using Cons.prems(5) Suc by simp
    have a6: "\<forall>j<k'. real (est + ?sz + sum_list (map (get_estimated_row_size_bytes c) (take (Suc j) outs'))) \<le> B"
    proof (intro allI impI)
      fix j assume "j < k'"
      then have "Suc j < k" using Suc by simp
      from Cons.prems(6) [rule_format, OF this] show
        "real (est + ?sz + sum_list (map (get_estimated_row_size_bytes c) (take (Suc j) outs'))) \<le> B"
        using outs by (simp add: add.assoc)
    qed
    have a7: "real (est + ?sz + sum_list (map (get_estimated_row_size_bytes c) (take (Suc k') outs'))) > B"
      using Cons.prems(7) Suc outs by (simp add: add.assoc)
    have "fst (norm_loop c B (wm1, est + ?sz, acc @ [out]) rows) = Inr ((acc @ [out]) @ take k' outs')"
      using Cons.IH [OF wm1(2) a2 a3 rest a5 a6 a7] .
    then show ?thesis using step Suc outs by simp
  qed
qed

text \<open>
  C3. Take rows of which none is suppressed by the first-poll rule and all are well
  formed (a datetime or \<^verbatim>\<open>None\<close> as start time; \<open>outs\<close> are their normalized forms).
  When row \<open>k\<close> (counting from 0) is the first at which the running total of the estimated
  sizes exceeds the budget, the normalizer returns exactly the normalized forms of the
  \<open>k\<close> rows before it, in order. With a budget of 100 and three rows of size 40 these are
  the first two.
\<close>

theorem budget_cutoff_returns_prefix:
  assumes "time_or_none last_query_start"
    and "\<forall>row\<in>set rows. \<exists>v. map_of row ''start_time'' = Some v \<and> time_or_none v"
    and "last_query_start \<noteq> VNone \<or> (\<forall>row\<in>set rows. skip_idle VNone row = Inr False)"
    and "map (normalized_row c) rows = map Inr outs"
    and "k < length rows"
    and "\<forall>j<k. real (sum_list (map (get_estimated_row_size_bytes c) (take (Suc j) outs)))
               \<le> max_bytes_limit"
    and "real (sum_list (map (get_estimated_row_size_bytes c) (take (Suc k) outs)))
           > max_bytes_limit"
  shows "fst (normalize_queries_and_filter_rows c last_query_start rows max_bytes_limit)
           = Inr (take k outs)"
  using norm_loop_cutoff [of last_query_start rows c outs k 0 max_bytes_limit "[]"] assms
  by (simp add: normalize_queries_and_filter_rows_def)

lemmas sample_eval =
  normalizer_defs sample_collaborators_def three_rows_def three_rows_normalized_def normalized_row_def

theorem budget_cutoff_returns_prefix_witness:
  "map (get_estimated_row_size_bytes sample_collaborators) three_rows_normalized = [40, 40, 40]
   \<and> map (normalized_row sample_collaborators) three_rows = map Inr three_rows_normalized
   \<and> fst (normalize_queries_and_filter_rows sample_collaborators VNone three_rows 100)
       = Inr (take 2 three_rows_normalized)"
proof -
  have t: "time_or_none VNone" by (simp add: time_or_none_def)
  have s: "\<forall>row\<in>set three_rows. \<exists>v. map_of row ''start_time'' = Some v \<and> time_or_none v"
    by (simp add: three_rows_def time_or_none_def)
  have i: "VNone \<noteq> VNone \<or> (\<forall>row\<in>set three_rows. skip_idle VNone row = Inr False)"
    by (simp add: three_rows_def skip_idle_def getitem_def)
  have m: "map (normalized_row sample_collaborators) three_rows = map Inr three_rows_normalized"
    by (simp add: sample_eval)
  have z: "map (get_estimated_row_size_bytes sample_collaborators) three_rows_normalized = [40, 40, 40]"
    by (simp add: three_rows_normalized_def get_estimated_row_size_bytes_def sample_collaborators_def)
  have k: "(2::nat) < length three_rows" by (simp add: three_rows_def)
  have b: "\<forall>j<2. real (sum_list (map (get_estimated_row_size_bytes sample_collaborators)
                      (take (Suc j) three_rows_normalized))) \<le> 100"
  proof (intro allI impI)
    fix j :: nat assume "j < 2"
    then have "j = 0 \<or> j = 1" by auto
    then show "real (sum_list (map (get_estimated_row_size_bytes sample_collaborators)
                      (take (Suc j) three_rows_normalized))) \<le> 100"
      using z by (auto simp: take_map [symmetric] take_Suc_conv_app_nth numeral_2_eq_2)
  qed
  have e: "real (sum_list (map (get_estimated_row_size_bytes sample_collaborators)
                      (take (Suc 2) three_rows_normalized))) > 100"
    using z by (simp add: take_map [symmetric])
  show ?thesis
    using budget_cutoff_returns_prefix [OF t s i m k b e] m z by simp
qed

subsection \<open>The watermark\<close>

lemma newest_Nil: "newest wm [] = wm"
  by (cases wm) (simp_all add: newest_def)

lemma newest_typed: "time_or_none wm \<Longrightarrow> time_or_none (newest wm ts)"
  by (auto simp: time_or_none_cases newest_def)

lemma newest_append:
  assumes "time_or_none wm"
  shows "newest (newest wm ts1) ts2 = newest wm (ts1 @ ts2)"
proof -
  have m: "Max (insert (Max A) B) = Max (A \<union> B)"
    if "finite A" "A \<noteq> {}" "finite B" for A B :: "int set"
  proof (cases "B = {}")
    case True
    then show ?thesis by simp
  next
    case False
    then show ?thesis using that by (simp add: Max_Un)
  qed
  consider (none) "wm = VNone" | (time) t where "wm = VTime t"
    using assms by (auto simp: time_or_none_cases)
  then show ?thesis
  proof cases
    case none
    show ?thesis
    proof (cases "ts1 = []")
      case True
      then show ?thesis using none by (simp add: newest_def)
    next
      case False
      then show ?thesis
        using none m [of "set ts1" "set ts2"] by (simp add: newest_def)
    qed
  next
    case time
    then show ?thesis
      using m [of "set (t # ts1)" "set ts2"] by (simp add: newest_def)
  qed
qed

lemma newest_not_decreased: "time_or_none wm \<Longrightarrow> not_decreased wm (newest wm ts)"
  by (auto simp: time_or_none_cases newest_def not_decreased_def)

lemma start_times_append: "start_times (a @ b) = start_times a @ start_times b"
  by (simp add: start_times_def)

lemma set_last_activity_newest:
  assumes "time_or_none wm" and "map_of row ''start_time'' = Some v" and "time_or_none v"
  shows "set_last_activity wm row = Inr (newest wm (start_times [row]))"
  using assms
  by (auto simp: time_or_none_cases set_last_activity_def getitem_def newest_def start_times_def)

lemma norm_loop_watermark:
  assumes "time_or_none wm" and "\<forall>row\<in>set rows. start_time_typed row"
  shows "snd (norm_loop c B (wm, est, acc) rows)
         = newest wm (start_times (considered c B (wm, est, acc) rows))"
  using assms
proof (induction rows arbitrary: wm est acc)
  case Nil
  then show ?case by (simp add: newest_Nil start_times_def)
next
  case (Cons row rows)
  obtain row1 obf where o: "obfuscate_row c row = (row1, obf)" by (cases "obfuscate_row c row")
  have st: "map_of row1 ''start_time'' = map_of row ''start_time''"
    using map_of_obfuscate_row [of "''start_time''" c row] o by simp
  have rest: "\<forall>row\<in>set rows. start_time_typed row" using Cons.prems(2) by simp
  show ?case
  proof (cases "skip_idle wm row")
    case (Inl e)
    then show ?thesis by (simp add: loop_body_def newest_Nil start_times_def)
  next
    case (Inr b)
    show ?thesis
    proof (cases b)
      case True
      then have "loop_body c B (wm, est, acc) row = Continue (wm, est, acc)"
        using Inr by (simp add: loop_body_def)
      then show ?thesis using Inr True Cons.IH [OF Cons.prems(1) rest] by simp
    next
      case False
      show ?thesis
      proof (cases "map_of row ''start_time''")
        case None
        then have "set_last_activity wm row1 = Inl (KeyError ''start_time'')"
          using st by (simp add: set_last_activity_def getitem_def)
        then have "loop_body c B (wm, est, acc) row = Raise (KeyError ''start_time'') wm"
          using Inr False o by (simp add: loop_body_def)
        then show ?thesis using Inr False None by (simp add: start_times_def newest_Nil)
      next
        case (Some v)
        have tv: "time_or_none v" using Cons.prems(2) Some by (simp add: start_time_typed_def)
        define wm1 where "wm1 = newest wm (start_times [row])"
        have "set_last_activity wm row1 = Inr (newest wm (start_times [row1]))"
          using set_last_activity_newest [OF Cons.prems(1) _ tv, of row1] st Some by simp
        moreover have "start_times [row1] = start_times [row]"
          using st by (simp add: start_times_def)
        ultimately have sl: "set_last_activity wm row1 = Inr wm1" by (simp add: wm1_def)
        have t1: "time_or_none wm1" using newest_typed [OF Cons.prems(1)] by (simp add: wm1_def)
        show ?thesis
        proof (cases "sanitize_row row1 obf")
          case (Inl e)
          then have "loop_body c B (wm, est, acc) row = Raise e wm1"
            using Inr False o sl by (simp add: loop_body_def)
          then show ?thesis using Inr False by (simp add: wm1_def)
        next
          case sr: (Inr row2)
          let ?est = "est + get_estimated_row_size_bytes c row2"
          show ?thesis
          proof (cases "real ?est > B")
            case True
            then have "loop_body c B (wm, est, acc) row = Return acc wm1"
              using Inr False o sl sr by (simp add: loop_body_def Let_def)
            then show ?thesis using Inr False by (simp add: wm1_def)
          next
            case over: False
            then have b: "loop_body c B (wm, est, acc) row = Continue (wm1, ?est, acc @ [row2])"
              using Inr False o sl sr by (simp add: loop_body_def Let_def)
            have "snd (norm_loop c B (wm1, ?est, acc @ [row2]) rows)
                  = newest wm1 (start_times (considered c B (wm1, ?est, acc @ [row2]) rows))"
              using Cons.IH [OF t1 rest] .
            moreover have "start_times (row # considered c B (wm1, ?est, acc @ [row2]) rows)
                  = start_times [row] @ start_times (considered c B (wm1, ?est, acc @ [row2]) rows)"
              by (simp add: start_times_def)
            ultimately show ?thesis
              using b Inr False newest_append [OF Cons.prems(1)]
              by (simp add: wm1_def)
          qed
        qed
      qed
    qed
  qed
qed

lemma collect_activity_watermark:
  assumes "time_or_none (activity_last_query_start self)" and "start_times_typed w"
  shows "activity_last_query_start (snd (collect_activity c w self))
         = newest (activity_last_query_start self) (start_times (poll_considered c w self))"
proof (cases "open_connection w")
  case (Some e)
  then show ?thesis
    by (simp add: collect_activity_def poll_considered_def on_error_def newest_Nil start_times_def)
next
  case None
  show ?thesis
  proof (cases "get_active_connections w")
    case (Inl e)
    then show ?thesis using None
      by (simp add: collect_activity_def poll_considered_def on_error_def newest_Nil start_times_def)
  next
    case conn: (Inr connections)
    show ?thesis
    proof (cases "get_activity w self")
      case (Inl e)
      then show ?thesis using None conn
        by (simp add: collect_activity_def poll_considered_def on_error_def newest_Nil start_times_def)
    next
      case (Inr rows)
      have "\<forall>row\<in>set rows. start_time_typed row"
        using assms(2) Inr by (auto simp: start_times_typed_def get_activity_def)
      then have n: "snd (normalize_queries_and_filter_rows c (activity_last_query_start self) rows
                      MAX_PAYLOAD_BYTES)
                 = newest (activity_last_query_start self)
                     (start_times (considered c MAX_PAYLOAD_BYTES
                        (activity_last_query_start self, 0, []) rows))"
        using norm_loop_watermark [OF assms(1)] by (simp add: normalize_queries_and_filter_rows_def)
      obtain res wm' where r: "normalize_queries_and_filter_rows c (activity_last_query_start self)
             rows MAX_PAYLOAD_BYTES = (res, wm')"
        by (cases "normalize_queries_and_filter_rows c (activity_last_query_start self) rows MAX_PAYLOAD_BYTES")
      have "activity_last_query_start (snd (collect_activity c w self)) = wm'"
        using None conn Inr r
        by (simp add: collect_activity_def on_error_def Let_def split: sum.splits option.splits)
      then show ?thesis using n r None conn Inr by (simp add: poll_considered_def)
    qed
  qed
qed

lemma run_polls_watermark:
  assumes "time_or_none (activity_last_query_start self)" and "\<forall>w\<in>set ws. start_times_typed w"
  shows "activity_last_query_start (run_polls c ws self)
         = newest (activity_last_query_start self) (start_times (all_considered c ws self))"
  using assms
proof (induction ws arbitrary: self)
  case Nil
  then show ?case by (simp add: newest_Nil start_times_def)
next
  case (Cons w ws)
  let ?self1 = "snd (collect_activity c w self)"
  have w: "start_times_typed w" and ws: "\<forall>w\<in>set ws. start_times_typed w"
    using Cons.prems(2) by simp_all
  have 1: "activity_last_query_start ?self1
           = newest (activity_last_query_start self) (start_times (poll_considered c w self))"
    using collect_activity_watermark [OF Cons.prems(1) w] .
  then have t: "time_or_none (activity_last_query_start ?self1)"
    using newest_typed [OF Cons.prems(1)] by simp
  show ?case
    using Cons.IH [OF t ws] 1 newest_append [OF Cons.prems(1)]
    by (simp add: start_times_append)
qed

lemma run_polls_append: "run_polls c (a @ b) self = run_polls c b (run_polls c a self)"
  by (induction a arbitrary: self) simp_all

text \<open>The row at which the loop returns for the budget is one of the rows it considers.\<close>

lemma cutoff_row_considered:
  assumes "loop_body c B s row = Return rs wm'"
  shows "considered c B s (row # rows) = [row]"
proof -
  obtain wm est acc where s: "s = (wm, est, acc)" by (cases s)
  have "skip_idle wm row = Inr False"
    using assms s by (auto simp: loop_body_def split: sum.splits bool.splits)
  then show ?thesis using assms s by simp
qed

text \<open>
  C4. Take a job whose watermark is unset or a datetime, and any sequence of polls whose
  rows hold a datetime or \<^verbatim>\<open>None\<close> as start time. After each poll the watermark is the
  newest of the initial watermark and the non-null start times of all rows considered so
  far (for a job started with the watermark unset: their maximum), the rows at which the
  loop returned for the budget included; and from one poll to the next a set watermark
  stays set and does not decrease.
\<close>

theorem watermark_is_newest_start_time:
  assumes "time_or_none (activity_last_query_start self)"
    and "\<forall>w\<in>set ws. start_times_typed w"
  shows "(\<forall>n\<le>length ws.
            activity_last_query_start (run_polls c (take n ws) self)
            = newest (activity_last_query_start self)
                (start_times (all_considered c (take n ws) self)))
       \<and> (\<forall>n<length ws.
            not_decreased (activity_last_query_start (run_polls c (take n ws) self))
              (activity_last_query_start (run_polls c (take (Suc n) ws) self)))"
proof (intro conjI allI impI)
  fix n assume "n \<le> length ws"
  have "\<forall>w\<in>set (take n ws). start_times_typed w"
    using assms(2) by (meson in_set_takeD)
  then show "activity_last_query_start (run_polls c (take n ws) self)
             = newest (activity_last_query_start self)
                 (start_times (all_considered c (take n ws) self))"
    using run_polls_watermark [OF assms(1)] by blast
next
  fix n assume n: "n < length ws"
  let ?self = "run_polls c (take n ws) self"
  have "\<forall>w\<in>set (take n ws). start_times_typed w"
    using assms(2) by (meson in_set_takeD)
  then have "activity_last_query_start ?self
             = newest (activity_last_query_start self)
                 (start_times (all_considered c (take n ws) self))"
    using run_polls_watermark [OF assms(1)] by blast
  then have t: "time_or_none (activity_last_query_start ?self)"
    using newest_typed [OF assms(1)] by simp
  have w: "start_times_typed (ws ! n)" using assms(2) n by simp
  have "run_polls c (take (Suc n) ws) self = snd (collect_activity c (ws ! n) ?self)"
    using n by (simp add: take_Suc_conv_app_nth run_polls_append)
  then show "not_decreased (activity_last_query_start ?self)
               (activity_last_query_start (run_polls c (take (Suc n) ws) self))"
    using collect_activity_watermark [OF t w, of c] newest_not_decreased [OF t] by simp
qed

lemma length_huge_str: "length (huge_str r) = 20000000"
  unfolding huge_str_def by (rule length_replicate)

lemma world_first_poll_typed: "start_times_typed world_first_poll"
  unfolding start_times_typed_def
proof (intro allI impI)
  fix q rows assume "fetch_rows world_first_poll q = Inr rows"
  then show "\<forall>row\<in>set rows. start_time_typed row"
    by (cases q)
      (auto simp: fetch_rows_def world_first_poll_def sample_connections_def py_dict_def
        start_time_typed_def time_or_none_def)
qed

lemma world_second_poll_typed: "start_times_typed world_second_poll"
  unfolding start_times_typed_def
proof (intro allI impI)
  fix q rows assume "fetch_rows world_second_poll q = Inr rows"
  then show "\<forall>row\<in>set rows. start_time_typed row"
    by (cases q)
      (auto simp: fetch_rows_def world_second_poll_def sample_connections_def py_dict_def
        start_time_typed_def time_or_none_def)
qed

lemmas huge_eval =
  collect_activity_def get_active_connections_def get_activity_def fetch_rows_def py_dict_def
  sample_connections_def normalize_queries_and_filter_rows_def loop_body_def skip_idle_def
  getitem_def obfuscate_row_def set_last_activity_def sanitize_row_def hex_field_def
  dm_exec_requests_exclude_keys_def get_estimated_row_size_bytes_def length_huge_str
  huge_collaborators_def sample_collaborators_def MAX_PAYLOAD_BYTES_def create_activity_event_def

lemma first_poll_run:
  "collect_activity huge_collaborators world_first_poll sample_job
   = (ReturnsNone,
      sample_job\<lparr>activity_last_query_start := VTime 5000000,
        submitted := [create_activity_event world_first_poll
                        (sample_job\<lparr>activity_last_query_start := VTime 5000000\<rparr>) []
                        [[(''user_name'', VStr ''sa''), (''connections'', VInt 2)]]],
        timing_count := 1\<rparr>)"
  by (simp add: huge_eval world_first_poll_def sample_job_def init_job_def)

lemma second_poll_watermark:
  "activity_last_query_start
     (snd (collect_activity huge_collaborators world_second_poll
        (snd (collect_activity huge_collaborators world_first_poll sample_job)))) = VTime 9000000
   \<and> map sqlserver_activity
        (submitted (snd (collect_activity huge_collaborators world_second_poll
           (snd (collect_activity huge_collaborators world_first_poll sample_job))))) = [[], []]"
  by (simp add: first_poll_run) (simp add: huge_eval world_second_poll_def)

lemma two_polls_considered:
  "start_times (all_considered huge_collaborators [world_first_poll, world_second_poll] sample_job)
   = [5000000, 9000000]"
  by (simp add: first_poll_run)
    (simp add: poll_considered_def get_active_connections_def get_activity_def fetch_rows_def
      py_dict_def sample_connections_def loop_body_def skip_idle_def getitem_def
      obfuscate_row_def set_last_activity_def sanitize_row_def hex_field_def
      dm_exec_requests_exclude_keys_def get_estimated_row_size_bytes_def length_huge_str
      huge_collaborators_def sample_collaborators_def MAX_PAYLOAD_BYTES_def
      world_first_poll_def world_second_poll_def sample_job_def init_job_def start_times_def)

theorem watermark_is_newest_start_time_witness:
  "activity_last_query_start sample_job = VNone
   \<and> activity_last_query_start
        (run_polls huge_collaborators [world_first_poll, world_second_poll] sample_job)
       = VTime 9000000
   \<and> start_times (all_considered huge_collaborators [world_first_poll, world_second_poll] sample_job)
       = [5000000, 9000000]
   \<and> map sqlserver_activity
        (submitted (run_polls huge_collaborators [world_first_poll, world_second_poll] sample_job))
       = [[], []]
   \<and> not_decreased
        (activity_last_query_start (run_polls huge_collaborators [world_first_poll] sample_job))
        (activity_last_query_start
           (run_polls huge_collaborators [world_first_poll, world_second_poll] sample_job))"
proof -
  let ?ws = "[world_first_poll, world_second_poll]"
  have s: "activity_last_query_start sample_job = VNone"
    by (simp add: sample_job_def init_job_def)
  have t: "time_or_none (activity_last_query_start sample_job)"
    by (simp add: s time_or_none_def)
  have w: "\<forall>w\<in>set ?ws. start_times_typed w"
    using world_first_poll_typed world_second_poll_typed by simp
  note th = watermark_is_newest_start_time [OF t w, of huge_collaborators]
  have a: "activity_last_query_start (run_polls huge_collaborators (take 2 ?ws) sample_job)
           = newest (activity_last_query_start sample_job)
               (start_times (all_considered huge_collaborators (take 2 ?ws) sample_job))"
    using th [THEN conjunct1, rule_format, of 2] by simp
  have b: "not_decreased
             (activity_last_query_start (run_polls huge_collaborators (take 1 ?ws) sample_job))
             (activity_last_query_start (run_polls huge_collaborators (take (Suc 1) ?ws) sample_job))"
    using th [THEN conjunct2, rule_format, of 1] by simp
  have a': "activity_last_query_start (run_polls huge_collaborators ?ws sample_job) = VTime 9000000"
    using a two_polls_considered by (simp add: s newest_def)
  have b': "not_decreased
             (activity_last_query_start (run_polls huge_collaborators [world_first_poll] sample_job))
             (activity_last_query_start (run_polls huge_collaborators ?ws sample_job))"
    using b by simp
  show ?thesis
    using s a' b' two_polls_considered second_poll_watermark by simp
qed

subsection \<open>Recovery from a failed obfuscation\<close>



subsection \<open>Missing keys\<close>

lemma skip_idle_set: "wm \<noteq> VNone \<Longrightarrow> skip_idle wm row = Inr False"
  by (simp add: skip_idle_def)

lemma set_last_activity_not_status: "set_last_activity wm row \<noteq> Inl (KeyError ''status'')"
  using set_last_activity_raises [of wm row "KeyError ''status''"] by auto

lemma sanitize_row_not_status: "sanitize_row row obf \<noteq> Inl (KeyError ''status'')"
  using sanitize_row_raises [of row obf "KeyError ''status''"] by auto

lemma loop_body_status_unread:
  assumes "wm \<noteq> VNone"
  shows "loop_body c B (wm, est, acc) row \<noteq> Raise (KeyError ''status'') wm'"
proof -
  obtain row1 obf where o: "obfuscate_row c row = (row1, obf)" by (cases "obfuscate_row c row")
  have k: "skip_idle wm row = Inr False" using assms by (rule skip_idle_set)
  show ?thesis
  proof (cases "set_last_activity wm row1")
    case (Inl e)
    then have "e \<noteq> KeyError ''status''" using set_last_activity_not_status [of wm row1] by auto
    then show ?thesis using k o Inl by (simp add: loop_body_def)
  next
    case wmr: (Inr wm1)
    show ?thesis
    proof (cases "sanitize_row row1 obf")
      case (Inl e)
      then have "e \<noteq> KeyError ''status''" using sanitize_row_not_status [of row1 obf] by auto
      then show ?thesis using k o wmr Inl by (simp add: loop_body_def)
    next
      case (Inr row2)
      then show ?thesis using k o wmr by (simp add: loop_body_def Let_def)
    qed
  qed
qed

lemma loop_body_without_text:
  assumes "map_of r ''text'' = None"
    and "skip_idle wm r = Inr False"
    and "set_last_activity wm r = Inr wm1"
    and "sanitize_row r obfuscation_failed_text = Inr out"
  shows "loop_body c B (wm, est, acc) r
           = (if real (est + get_estimated_row_size_bytes c out) > B
              then Return acc wm1
              else Continue (wm1, est + get_estimated_row_size_bytes c out, acc @ [out]))
         \<and> map_of out ''text'' = Some (VStr obfuscation_failed_text)"
proof -
  have "obfuscate_row c r = (r, obfuscation_failed_text)"
    using assms(1) by (simp add: obfuscate_row_def getitem_def)
  then show ?thesis
    using assms(2-4) sanitize_row_props(3) [OF assms(4)] by (simp add: loop_body_def Let_def)
qed

text \<open>
  C10, as stated, fails on the code: with the watermark set, a row without a
  \<^verbatim>\<open>status\<close> key raises nothing, since \<^verbatim>\<open>row['status']\<close> is read only while the
  watermark is \<^verbatim>\<open>None\<close>. The poll ends normally and submits the row.
\<close>

theorem missing_key_aborts_poll_counterexample:
  "map_of (py_dict (zip [''text'', ''start_time''] [VStr ''select 1'', VTime 7000000])) ''status'' = None
   \<and> get_activity world_row_without_status job_with_watermark
       = Inr [py_dict (zip [''text'', ''start_time''] [VStr ''select 1'', VTime 7000000])]
   \<and> fst (collect_activity sample_collaborators world_row_without_status job_with_watermark) = ReturnsNone
   \<and> error_count (snd (collect_activity sample_collaborators world_row_without_status job_with_watermark)) = 0
   \<and> map sqlserver_activity
        (submitted (snd (collect_activity sample_collaborators world_row_without_status job_with_watermark)))
       = [[[(''text'', VStr ''select ?''), (''start_time'', VTime 7000000),
            (''query_signature'', VStr ''a1b2'')]]]"
  by (simp add: collect_activity_def get_active_connections_def get_activity_def fetch_rows_def
      world_row_without_status_def sample_connections_def py_dict_def job_with_watermark_fields
      normalizer_defs sample_collaborators_def MAX_PAYLOAD_BYTES_def create_activity_event_def)

text \<open>
  C10, amended. The loop reads \<^verbatim>\<open>status\<close> of a row only while the watermark is unset:
  once it is set, no row is suppressed and the loop body never raises for a missing
  \<^verbatim>\<open>status\<close>. It reads \<^verbatim>\<open>start_time\<close> of every row it reaches and does not suppress.
  When the loop reaches a row that lacks \<^verbatim>\<open>status\<close> while the watermark is unset, or an
  unsuppressed row that lacks \<^verbatim>\<open>start_time\<close>, the poll goes through the handler: empty
  list, failure counter up by one, no event submitted (the watermark is the one the loop
  had reached). A row that lacks only \<^verbatim>\<open>text\<close> gets the sentinel statement: the loop
  body never raises for the missing \<^verbatim>\<open>text\<close>, and appends the row with the sentinel text
  like any other row.
\<close>

theorem missing_key_aborts_poll:
  assumes "open_connection w = None"
    and "get_active_connections w = Inr connections"
    and "get_activity w self = Inr (pre @ row # post)"
    and "loop_reaches c MAX_PAYLOAD_BYTES (activity_last_query_start self, 0, []) pre
           = Some (last_query_start, estimated_size, normalized_rows)"
    and "(last_query_start = VNone \<and> map_of row ''status'' = None)
         \<or> (skip_idle last_query_start row = Inr False \<and> map_of row ''start_time'' = None)"
  shows "collect_activity c w self
           = (ReturnsEmptyList,
              self\<lparr>activity_last_query_start := last_query_start,
                   error_count := error_count self + 1\<rparr>)
       \<and> submitted (snd (collect_activity c w self)) = submitted self
       \<and> (\<forall>wm r. wm \<noteq> VNone \<longrightarrow> skip_idle wm r = Inr False)
       \<and> (\<forall>wm est acc r wm'. wm \<noteq> VNone \<longrightarrow>
             loop_body c MAX_PAYLOAD_BYTES (wm, est, acc) r \<noteq> Raise (KeyError ''status'') wm')
       \<and> (\<forall>wm est acc r. map_of r ''text'' = None \<longrightarrow>
             obfuscate_row c r = (r, obfuscation_failed_text)
             \<and> (\<forall>wm'. loop_body c MAX_PAYLOAD_BYTES (wm, est, acc) r \<noteq> Raise (KeyError ''text'') wm')
             \<and> (\<forall>wm1 out. skip_idle wm r = Inr False
                   \<and> set_last_activity wm r = Inr wm1
                   \<and> sanitize_row r obfuscation_failed_text = Inr out \<longrightarrow>
                   loop_body c MAX_PAYLOAD_BYTES (wm, est, acc) r
                     = (if real (est + get_estimated_row_size_bytes c out) > MAX_PAYLOAD_BYTES
                        then Return acc wm1
                        else Continue (wm1, est + get_estimated_row_size_bytes c out, acc @ [out]))
                   \<and> map_of out ''text'' = Some (VStr obfuscation_failed_text)))"
proof -
  let ?s = "(last_query_start, estimated_size, normalized_rows)"
  have "\<exists>k. loop_body c MAX_PAYLOAD_BYTES ?s row = Raise (KeyError k) last_query_start"
    using assms(5) loop_body_missing_status loop_body_missing_start_time by blast
  then obtain k where "loop_body c MAX_PAYLOAD_BYTES ?s row = Raise (KeyError k) last_query_start"
    by blast
  then have "norm_loop c MAX_PAYLOAD_BYTES ?s (row # post) = (Inl (KeyError k), last_query_start)"
    by simp
  then have n: "normalize_queries_and_filter_rows c (activity_last_query_start self)
          (pre @ row # post) MAX_PAYLOAD_BYTES = (Inl (KeyError k), last_query_start)"
    using norm_loop_append [OF assms(4)] by (simp add: normalize_queries_and_filter_rows_def)
  have p: "collect_activity c w self
           = (ReturnsEmptyList,
              self\<lparr>activity_last_query_start := last_query_start,
                   error_count := error_count self + 1\<rparr>)"
    using assms(1-3) n by (simp add: collect_activity_def on_error_def)
  have q: "submitted (snd (collect_activity c w self)) = submitted self"
    using p by simp
  have u: "\<forall>wm r. wm \<noteq> VNone \<longrightarrow> skip_idle wm r = Inr False"
    by (simp add: skip_idle_def)
  have v: "\<forall>wm est acc r wm'. wm \<noteq> VNone \<longrightarrow>
             loop_body c MAX_PAYLOAD_BYTES (wm, est, acc) r \<noteq> Raise (KeyError ''status'') wm'"
    using loop_body_status_unread by blast
  have t: "\<forall>wm est acc r. map_of r ''text'' = None \<longrightarrow>
             obfuscate_row c r = (r, obfuscation_failed_text)
             \<and> (\<forall>wm'. loop_body c MAX_PAYLOAD_BYTES (wm, est, acc) r \<noteq> Raise (KeyError ''text'') wm')
             \<and> (\<forall>wm1 out. skip_idle wm r = Inr False
                   \<and> set_last_activity wm r = Inr wm1
                   \<and> sanitize_row r obfuscation_failed_text = Inr out \<longrightarrow>
                   loop_body c MAX_PAYLOAD_BYTES (wm, est, acc) r
                     = (if real (est + get_estimated_row_size_bytes c out) > MAX_PAYLOAD_BYTES
                        then Return acc wm1
                        else Continue (wm1, est + get_estimated_row_size_bytes c out, acc @ [out]))
                   \<and> map_of out ''text'' = Some (VStr obfuscation_failed_text))"
  proof (intro allI impI)
    fix wm :: val and est :: nat and acc :: "row list" and r :: row
    assume m: "map_of r ''text'' = None"
    have 1: "obfuscate_row c r = (r, obfuscation_failed_text)"
      using m by (simp add: obfuscate_row_def getitem_def)
    have 2: "\<forall>wm'. loop_body c MAX_PAYLOAD_BYTES (wm, est, acc) r \<noteq> Raise (KeyError ''text'') wm'"
      using loop_body_never_raises_text by blast
    have 3: "\<forall>wm1 out. skip_idle wm r = Inr False
                   \<and> set_last_activity wm r = Inr wm1
                   \<and> sanitize_row r obfuscation_failed_text = Inr out \<longrightarrow>
                   loop_body c MAX_PAYLOAD_BYTES (wm, est, acc) r
                     = (if real (est + get_estimated_row_size_bytes c out) > MAX_PAYLOAD_BYTES
                        then Return acc wm1
                        else Continue (wm1, est + get_estimated_row_size_bytes c out, acc @ [out]))
                   \<and> map_of out ''text'' = Some (VStr obfuscation_failed_text)"
      using loop_body_without_text [OF m] by blast
    show "obfuscate_row c r = (r, obfuscation_failed_text)
             \<and> (\<forall>wm'. loop_body c MAX_PAYLOAD_BYTES (wm, est, acc) r \<noteq> Raise (KeyError ''text'') wm')
             \<and> (\<forall>wm1 out. skip_idle wm r = Inr False
                   \<and> set_last_activity wm r = Inr wm1
                   \<and> sanitize_row r obfuscation_failed_text = Inr out \<longrightarrow>
                   loop_body c MAX_PAYLOAD_BYTES (wm, est, acc) r
                     = (if real (est + get_estimated_row_size_bytes c out) > MAX_PAYLOAD_BYTES
                        then Return acc wm1
                        else Continue (wm1, est + get_estimated_row_size_bytes c out, acc @ [out]))
                   \<and> map_of out ''text'' = Some (VStr obfuscation_failed_text))"
      using 1 2 3 by blast
  qed
  show ?thesis using p q u v t by blast
qed

theorem missing_key_aborts_poll_witness:
  "get_activity world_row_without_status sample_job = Inr ([] @ row_without_status # [])
   \<and> collect_activity sample_collaborators world_row_without_status sample_job
       = (ReturnsEmptyList, sample_job\<lparr>activity_last_query_start := VNone, error_count := 1\<rparr>)
   \<and> get_activity world_row_without_start_time sample_job
       = Inr ([[(''status'', VStr ''running''), (''text'', VStr ''select 1''),
                (''start_time'', VTime 7000000)]]
              @ [(''status'', VStr ''running''), (''text'', VStr ''select 2'')] # [])
   \<and> collect_activity sample_collaborators world_row_without_start_time sample_job
       = (ReturnsEmptyList,
          sample_job\<lparr>activity_last_query_start := VTime 7000000, error_count := 1\<rparr>)
   \<and> submitted (snd (collect_activity sample_collaborators world_row_without_start_time sample_job)) = []
   \<and> skip_idle (VTime 1000000000) row_without_status = Inr False
   \<and> loop_body sample_collaborators MAX_PAYLOAD_BYTES (VTime 1000000000, 0, []) row_without_status
       = Continue (VTime 1000000000, 40,
           [[(''text'', VStr ''select ?''), (''start_time'', VTime 7000000),
             (''query_signature'', VStr ''a1b2'')]])
   \<and> obfuscate_row sample_collaborators row_without_text
       = (row_without_text, obfuscation_failed_text)
   \<and> loop_body sample_collaborators MAX_PAYLOAD_BYTES (VNone, 0, []) row_without_text
       = Continue (VTime 7000000, 40,
           [[(''status'', VStr ''running''), (''start_time'', VTime 7000000),
             (''text'', VStr ''ERROR: failed to obfuscate'')]])"
proof -
  let ?r1 = "[(''status'', VStr ''running''), (''text'', VStr ''select 1''),
              (''start_time'', VTime 7000000)]"
  let ?r2 = "[(''status'', VStr ''running''), (''text'', VStr ''select 2'')]"
  let ?o1 = "[(''status'', VStr ''running''), (''text'', VStr ''select ?''),
              (''start_time'', VTime 7000000), (''query_signature'', VStr ''a1b2'')]"
  let ?ot = "[(''status'', VStr ''running''), (''start_time'', VTime 7000000),
              (''text'', VStr ''ERROR: failed to obfuscate'')]"
  let ?conn = "[[(''user_name'', VStr ''sa''), (''connections'', VInt 2)]]"
  have s: "error_count sample_job = 0" "submitted sample_job = []"
    "activity_last_query_start sample_job = VNone"
    by (simp_all add: sample_job_def init_job_def)
  \<comment> \<open>a row without \<open>status\<close>, watermark unset\<close>
  have o1: "open_connection world_row_without_status = None"
    by (simp add: world_row_without_status_def)
  have a1: "get_active_connections world_row_without_status = Inr ?conn"
    by (simp add: get_active_connections_def fetch_rows_def world_row_without_status_def
        sample_connections_def py_dict_def)
  have g1: "get_activity world_row_without_status sample_job = Inr ([] @ row_without_status # [])"
    by (simp add: get_activity_def fetch_rows_def world_row_without_status_def py_dict_def
        row_without_status_def)
  have r1: "loop_reaches sample_collaborators MAX_PAYLOAD_BYTES
             (activity_last_query_start sample_job, 0, []) [] = Some (VNone, 0, [])"
    by (simp add: s)
  have m1: "(VNone = VNone \<and> map_of row_without_status ''status'' = None)
           \<or> (skip_idle VNone row_without_status = Inr False
               \<and> map_of row_without_status ''start_time'' = None)"
    by (simp add: row_without_status_def)
  note th1 = missing_key_aborts_poll [OF o1 a1 g1 r1 m1]
  \<comment> \<open>a row without \<open>start_time\<close>, behind a well-formed row\<close>
  have o2: "open_connection world_row_without_start_time = None"
    by (simp add: world_row_without_start_time_def)
  have a2: "get_active_connections world_row_without_start_time = Inr ?conn"
    by (simp add: get_active_connections_def fetch_rows_def world_row_without_start_time_def
        sample_connections_def py_dict_def)
  have g2: "get_activity world_row_without_start_time sample_job = Inr ([?r1] @ ?r2 # [])"
    by (simp add: get_activity_def fetch_rows_def world_row_without_start_time_def py_dict_def)
  have r2: "loop_reaches sample_collaborators MAX_PAYLOAD_BYTES
             (activity_last_query_start sample_job, 0, []) [?r1] = Some (VTime 7000000, 40, [?o1])"
    by (simp add: s loop_body_def skip_idle_def getitem_def obfuscate_row_def set_last_activity_def
        sanitize_row_def hex_field_def dm_exec_requests_exclude_keys_def
        get_estimated_row_size_bytes_def sample_collaborators_def MAX_PAYLOAD_BYTES_def)
  have m2: "(VTime 7000000 = VNone \<and> map_of ?r2 ''status'' = None)
           \<or> (skip_idle (VTime 7000000) ?r2 = Inr False \<and> map_of ?r2 ''start_time'' = None)"
    by (simp add: skip_idle_def)
  note th2 = missing_key_aborts_poll [OF o2 a2 g2 r2 m2]
  \<comment> \<open>\<open>status\<close> is not read once the watermark is set\<close>
  have k: "skip_idle (VTime 1000000000) row_without_status = Inr False"
    using th1 [THEN conjunct2, THEN conjunct2, THEN conjunct1,
               THEN spec [of _ "VTime 1000000000"], THEN spec [of _ row_without_status]]
    by simp
  have b: "loop_body sample_collaborators MAX_PAYLOAD_BYTES (VTime 1000000000, 0, [])
             row_without_status
           = Continue (VTime 1000000000, 40,
               [[(''text'', VStr ''select ?''), (''start_time'', VTime 7000000),
                 (''query_signature'', VStr ''a1b2'')]])"
    by (simp add: loop_body_def skip_idle_def getitem_def obfuscate_row_def set_last_activity_def
        sanitize_row_def hex_field_def dm_exec_requests_exclude_keys_def
        get_estimated_row_size_bytes_def sample_collaborators_def MAX_PAYLOAD_BYTES_def
        row_without_status_def)
  \<comment> \<open>a row that lacks only \<open>text\<close>\<close>
  have t: "map_of row_without_text ''text'' = None" by (simp add: row_without_text_def)
  have k3: "skip_idle VNone row_without_text = Inr False"
    by (simp add: skip_idle_def getitem_def row_without_text_def)
  have w3: "set_last_activity VNone row_without_text = Inr (VTime 7000000)"
    by (simp add: set_last_activity_def getitem_def row_without_text_def)
  have s3: "sanitize_row row_without_text obfuscation_failed_text = Inr ?ot"
    by (simp add: sanitize_row_def hex_field_def dm_exec_requests_exclude_keys_def
        row_without_text_def obfuscation_failed_text_def)
  have z3: "get_estimated_row_size_bytes sample_collaborators ?ot = 40"
    by (simp add: get_estimated_row_size_bytes_def sample_collaborators_def)
  note c5 = th2 [THEN conjunct2, THEN conjunct2, THEN conjunct2, THEN conjunct2,
                 THEN spec [of _ VNone], THEN spec [of _ "0::nat"], THEN spec [of _ "[]"],
                 THEN spec [of _ row_without_text], THEN mp, OF t]
  note c5a = c5 [THEN conjunct1]
  note c5c = c5 [THEN conjunct2, THEN conjunct2, THEN spec [of _ "VTime 7000000"],
                 THEN spec [of _ ?ot], THEN mp, OF conjI [OF k3 conjI [OF w3 s3]], THEN conjunct1]
  have u: "loop_body sample_collaborators MAX_PAYLOAD_BYTES (VNone, 0, []) row_without_text
             = Continue (VTime 7000000, 40, [?ot])"
    using c5c z3 by (simp add: MAX_PAYLOAD_BYTES_def)
  note e1 = th1 [THEN conjunct1]
  note e2 = th2 [THEN conjunct1]
  note q2 = th2 [THEN conjunct2, THEN conjunct1]
  show ?thesis
    using e1 e2 q2 s g1 g2 k b u c5a by simp
qed

end
